theory Spec2Isabelle
  imports Complex_Main "HOL-Library.Word" "HOL-Library.Signed_Division"
begin

unbundle bit_operations_syntax

section \<open>Linear scale widget (lv_linearscale.c, lv_linearscale.h)\<close>

subsection \<open>C integer types\<close>

text \<open>
  The fixed-width types of the source are words: \<open>+\<close>, \<open>-\<close> and \<open>*\<close> wrap around,
  \<open>sint\<close> reads a signed value, \<open>uint\<close>/\<open>unat\<close> an unsigned one. The C type \<open>int\<close>, in which
  the source's mixed expressions are evaluated after integer promotion, is taken to be
  32 bits wide. A signed overflow (undefined in C) wraps in the model, and so does the
  conversion of an \<open>int\<close> to a narrower signed type; the theorems that depend on the absence
  of overflow say so in their hypotheses.
\<close>

type_synonym int32_t = "32 word"
type_synonym int16_t = "16 word"
type_synonym uint16_t = "16 word"
type_synonym uint8_t = "8 word"
type_synonym c_int = "32 word"

text \<open>Integer promotion of a signed and of an unsigned 16-bit value.\<close>

definition int_of_s16 :: "int16_t \<Rightarrow> c_int" where
  "int_of_s16 w = scast w"

definition int_of_u16 :: "uint16_t \<Rightarrow> c_int" where
  "int_of_u16 w = ucast w"

text \<open>
  Conversion of an \<open>int\<close> to a 16-bit or an 8-bit type: the value is reduced modulo
  \<open>2 ^ 16\<close> or \<open>2 ^ 8\<close>, that is, the low bits are kept.
\<close>

definition to_16 :: "c_int \<Rightarrow> 16 word" where
  "to_16 w = scast w"

definition to_u8 :: "c_int \<Rightarrow> uint8_t" where
  "to_u8 w = scast w"

text \<open>
  C's \<open>/\<close> and \<open>%\<close> on \<open>int\<close> truncate towards zero (\<open>sdiv\<close> and \<open>smod\<close> on the signed
  values). A zero divisor is a fault of the program, and so is the division of the least
  \<open>int\<close> by -1, whose quotient is no \<open>int\<close>: the callers below test for both before they
  divide, wherever that can happen. Of the divisions of the render pass only that of the
  fill level can divide the least \<open>int\<close> by -1: the other divisors are positive or zero,
  but for the major step of line 330, whose dividend is a tick index and not negative.
\<close>

definition c_div :: "c_int \<Rightarrow> c_int \<Rightarrow> c_int" where
  "c_div a b = word_of_int (sint a sdiv sint b)"

definition c_mod :: "c_int \<Rightarrow> c_int \<Rightarrow> c_int" where
  "c_mod a b = word_of_int (sint a smod sint b)"

subsection \<open>The widget's data (lv_linearscale.h)\<close>

type_synonym lv_linearscale_align_t = uint8_t

definition LV_LINEARSCALE_ALIGN_TOP :: lv_linearscale_align_t where
  "LV_LINEARSCALE_ALIGN_TOP = 0"

definition LV_LINEARSCALE_ALIGN_BOT :: lv_linearscale_align_t where
  "LV_LINEARSCALE_ALIGN_BOT = 1"

definition LV_LINEARSCALE_ALIGN_LEFT :: lv_linearscale_align_t where
  "LV_LINEARSCALE_ALIGN_LEFT = 2"

definition LV_LINEARSCALE_ALIGN_RIGHT :: lv_linearscale_align_t where
  "LV_LINEARSCALE_ALIGN_RIGHT = 3"

text \<open>
  \<open>lv_linearscale_ext_t\<close>. The formatter callback writes the text of a label value into a
  caller-owned buffer; here it is the function from the value to that text, \<open>None\<close> for NULL.
\<close>

record lv_linearscale_ext_t =
  line_cnt :: uint16_t
  label_cnt :: uint16_t
  cur_value :: int32_t
  min_value :: int32_t
  max_value :: int32_t
  align :: lv_linearscale_align_t
  format_cb :: "(int32_t \<Rightarrow> string) option"

text \<open>
  \<open>lv_coord_t\<close> and \<open>lv_area_t\<close> are declared in lv_misc/lv_area.h, which is not among the
  sources at hand; coordinates are the 16-bit signed integers of the library's default
  configuration, an area is its two corners.
\<close>

type_synonym lv_coord_t = int16_t

record lv_area_t =
  x1 :: lv_coord_t
  y1 :: lv_coord_t
  x2 :: lv_coord_t
  y2 :: lv_coord_t

text \<open>
  The object: its coordinates, the extended data of the linear scale, and the number of
  redraw requests issued on it so far.
\<close>

record lv_obj_t =
  coords :: lv_area_t
  ext_attr :: lv_linearscale_ext_t
  invalidated :: nat

text \<open>
  Modelled from the spec: \<open>lv_obj_invalidate\<close> (lv_core/lv_obj.c) is not among the sources
  at hand. It is the redraw request, a fire-and-forget call without parameters that asks
  the host to schedule a render pass; the model counts the requests.
\<close>

definition lv_obj_invalidate :: "lv_obj_t \<Rightarrow> lv_obj_t" where
  "lv_obj_invalidate obj = obj\<lparr>invalidated := Suc (invalidated obj)\<rparr>"

subsection \<open>Creation\<close>

text \<open>
  Modelled from the spec: \<open>lv_obj_set_size\<close> (lv_core/lv_obj.c) is not among the sources at
  hand. It gives the object a width and a height and keeps its top left corner; an area
  holds its corner pixels, both included. Here it acts on the coordinates.
\<close>

definition lv_obj_set_size :: "lv_area_t \<Rightarrow> lv_coord_t \<Rightarrow> lv_coord_t \<Rightarrow> lv_area_t" where
  "lv_obj_set_size a w h = a\<lparr>x2 := x1 a + w - 1, y2 := y1 a + h - 1\<rparr>"

text \<open>
  \<open>lv_linearscale_create\<close>: \<open>dpi\<close> is the configuration constant \<open>LV_DPI\<close>, \<open>base\<close> the
  coordinates of the object that \<open>lv_obj_create\<close> returned (None for NULL), \<open>ext_ok\<close> says
  whether \<open>lv_obj_allocate_ext_attr\<close> succeeded, \<open>copy\<close> is the object to copy from. Without
  a copy the object is given the size \<open>3 * LV_DPI / 2\<close> in both directions. The fresh object
  has no redraw request of this module on it.
\<close>

definition lv_linearscale_create ::
  "c_int \<Rightarrow> lv_area_t option \<Rightarrow> bool \<Rightarrow> lv_obj_t option \<Rightarrow> lv_obj_t option" where
  "lv_linearscale_create dpi base ext_ok copy =
     (case base of
        None \<Rightarrow> None
      | Some area \<Rightarrow>
          if \<not> ext_ok then None
          else
            let ext = \<lparr>line_cnt = 26, label_cnt = 6, cur_value = 0, min_value = 0,
                       max_value = 100, align = LV_LINEARSCALE_ALIGN_LEFT, format_cb = None\<rparr>
            in (case copy of
                  None \<Rightarrow>
                    Some \<lparr>coords = lv_obj_set_size area (to_16 (c_div (3 * dpi) 2))
                                     (to_16 (c_div (3 * dpi) 2)),
                          ext_attr = ext, invalidated = 0\<rparr>
                | Some c \<Rightarrow>
                    let copy_ext = ext_attr c
                    in Some \<lparr>coords = area,
                             ext_attr = ext\<lparr>line_cnt := line_cnt copy_ext,
                                            label_cnt := label_cnt copy_ext,
                                            min_value := min_value copy_ext,
                                            max_value := max_value copy_ext,
                                            cur_value := cur_value copy_ext,
                                            align := align copy_ext,
                                            format_cb := format_cb copy_ext\<rparr>,
                             invalidated = 0\<rparr>))"

subsection \<open>Setters and getters\<close>

definition lv_linearscale_set_value :: "lv_obj_t \<Rightarrow> int32_t \<Rightarrow> lv_obj_t" where
  "lv_linearscale_set_value lscale v =
     (let ext = ext_attr lscale
      in if cur_value ext = v then lscale
         else
           let ext1 = ext\<lparr>cur_value := (if max_value ext <s v then max_value ext else v)\<rparr>;
               ext2 = ext1\<lparr>cur_value := (if cur_value ext1 <s min_value ext1
                                            then min_value ext1 else cur_value ext1)\<rparr>
           in lv_obj_invalidate (lscale\<lparr>ext_attr := ext2\<rparr>))"

definition lv_linearscale_set_range :: "lv_obj_t \<Rightarrow> int32_t \<Rightarrow> int32_t \<Rightarrow> lv_obj_t" where
  "lv_linearscale_set_range lscale mn mx =
     (let ext = ext_attr lscale
      in if min_value ext = mn \<and> max_value ext = mx then lscale
         else
           let s1 = lscale\<lparr>ext_attr := ext\<lparr>max_value := mx, min_value := mn\<rparr>\<rparr>;
               s2 = (if mx <s cur_value (ext_attr s1)
                     then
                       let s1' = s1\<lparr>ext_attr := (ext_attr s1)\<lparr>cur_value := mx\<rparr>\<rparr>
                       in lv_linearscale_set_value s1' (cur_value (ext_attr s1'))
                     else s1);
               s3 = (if cur_value (ext_attr s2) <s mn
                     then
                       let s2' = s2\<lparr>ext_attr := (ext_attr s2)\<lparr>cur_value := mn\<rparr>\<rparr>
                       in lv_linearscale_set_value s2' (cur_value (ext_attr s2'))
                     else s2)
           in lv_obj_invalidate s3)"

definition lv_linearscale_set_scale :: "lv_obj_t \<Rightarrow> uint16_t \<Rightarrow> uint16_t \<Rightarrow> lv_obj_t" where
  "lv_linearscale_set_scale lscale lines labels =
     (if lines = 0 then lscale
      else
        let ext = ext_attr lscale
        in if line_cnt ext = lines \<and> label_cnt ext = labels then lscale
           else lv_obj_invalidate
                  (lscale\<lparr>ext_attr := ext\<lparr>line_cnt := lines, label_cnt := labels\<rparr>\<rparr>))"

definition lv_linearscale_set_alignment :: "lv_obj_t \<Rightarrow> lv_linearscale_align_t \<Rightarrow> lv_obj_t" where
  "lv_linearscale_set_alignment lscale dir =
     (let ext = ext_attr lscale
      in if align ext = dir then lscale
         else lv_obj_invalidate (lscale\<lparr>ext_attr := ext\<lparr>align := dir\<rparr>\<rparr>))"

definition lv_linearscale_set_formatter_cb ::
  "lv_obj_t \<Rightarrow> (int32_t \<Rightarrow> string) option \<Rightarrow> lv_obj_t" where
  "lv_linearscale_set_formatter_cb lscale cb =
     lscale\<lparr>ext_attr := (ext_attr lscale)\<lparr>format_cb := cb\<rparr>\<rparr>"

definition lv_linearscale_get_value :: "lv_obj_t \<Rightarrow> int32_t" where
  "lv_linearscale_get_value lscale = cur_value (ext_attr lscale)"

definition lv_linearscale_get_min_value :: "lv_obj_t \<Rightarrow> int32_t" where
  "lv_linearscale_get_min_value lscale = min_value (ext_attr lscale)"

definition lv_linearscale_get_max_value :: "lv_obj_t \<Rightarrow> int32_t" where
  "lv_linearscale_get_max_value lscale = max_value (ext_attr lscale)"

definition lv_linearscale_get_line_count :: "lv_obj_t \<Rightarrow> uint16_t" where
  "lv_linearscale_get_line_count lscale = line_cnt (ext_attr lscale)"

definition lv_linearscale_get_label_count :: "lv_obj_t \<Rightarrow> uint16_t" where
  "lv_linearscale_get_label_count lscale = label_cnt (ext_attr lscale)"

text \<open>The setter calls as data, to speak about sequences of them.\<close>

datatype setter_call =
    Set_value int32_t
  | Set_range int32_t int32_t
  | Set_scale uint16_t uint16_t
  | Set_alignment lv_linearscale_align_t
  | Set_formatter_cb "(int32_t \<Rightarrow> string) option"

fun call_setter :: "lv_obj_t \<Rightarrow> setter_call \<Rightarrow> lv_obj_t" where
  "call_setter lscale (Set_value v) = lv_linearscale_set_value lscale v"
| "call_setter lscale (Set_range mn mx) = lv_linearscale_set_range lscale mn mx"
| "call_setter lscale (Set_scale lines labels) = lv_linearscale_set_scale lscale lines labels"
| "call_setter lscale (Set_alignment dir) = lv_linearscale_set_alignment lscale dir"
| "call_setter lscale (Set_formatter_cb cb) = lv_linearscale_set_formatter_cb lscale cb"

text \<open>
  The object that \<open>lv_linearscale_create\<close> returns for a NULL \<open>copy\<close>, with the
  coordinates \<open>area\<close> that \<open>lv_obj_set_size\<close> left.
\<close>

definition fresh_scale :: "lv_area_t \<Rightarrow> lv_obj_t" where
  "fresh_scale area =
     \<lparr>coords = area,
      ext_attr = \<lparr>line_cnt = 26, label_cnt = 6, cur_value = 0, min_value = 0,
                  max_value = 100, align = LV_LINEARSCALE_ALIGN_LEFT, format_cb = None\<rparr>,
      invalidated = 0\<rparr>"

subsection \<open>What the renderer takes from its host\<close>

text \<open>
  \<open>lv_style_int_t\<close> and \<open>lv_point_t\<close> are declared outside the sources at hand as well: a style
  integer is a 16-bit signed integer, a point has the coordinates \<open>x\<close> and \<open>y\<close> (here \<open>pt_x\<close>
  and \<open>pt_y\<close>).
\<close>

type_synonym lv_style_int_t = int16_t

record lv_point_t =
  pt_x :: lv_coord_t
  pt_y :: lv_coord_t

text \<open>
  Modelled from the spec: \<open>lv_color_t\<close> and \<open>lv_color_mix\<close> (lv_misc/lv_color.h) are not
  among the sources at hand. The spec describes the colour of a tick below the fill level
  as the linear blend of \<open>gradColor\<close> toward \<open>mainColor\<close> with the mix fraction as third
  argument, 0 giving pure \<open>gradColor\<close>. A colour is three 8-bit channels, each blended on
  the scale 0..255.
\<close>

record lv_color_t =
  ch_red :: uint8_t
  ch_green :: uint8_t
  ch_blue :: uint8_t

definition mix_channel :: "uint8_t \<Rightarrow> uint8_t \<Rightarrow> uint8_t \<Rightarrow> uint8_t" where
  "mix_channel a b m = word_of_int ((uint a * (255 - uint m) + uint b * uint m) div 255)"

definition lv_color_mix :: "lv_color_t \<Rightarrow> lv_color_t \<Rightarrow> uint8_t \<Rightarrow> lv_color_t" where
  "lv_color_mix c1 c2 m =
     \<lparr>ch_red = mix_channel (ch_red c1) (ch_red c2) m,
      ch_green = mix_channel (ch_green c1) (ch_green c2) m,
      ch_blue = mix_channel (ch_blue c1) (ch_blue c2) m\<rparr>"

text \<open>
  The fields of \<open>lv_draw_line_dsc_t\<close> (lv_draw/lv_draw_line.h) that the renderer writes.
\<close>

record lv_draw_line_dsc_t =
  color :: lv_color_t
  width :: lv_style_int_t
  raw_end :: bool

text \<open>
  The style lookups of one render pass, each named after the getter the source calls
  (the paddings are read for the main part, the others for the part that is drawn),
  the line descriptor that \<open>lv_draw_line_dsc_init\<close> and \<open>lv_obj_init_draw_line_dsc\<close> produce,
  the text measurement \<open>_lv_txt_get_size\<close> with the label descriptor's font and spacing, and
  the default conversion \<open>_lv_utils_num_to_str\<close>. None of them is among the sources at hand,
  so they are parameters.
\<close>

record lv_host_t =
  style_pad_left :: lv_style_int_t
  style_pad_right :: lv_style_int_t
  style_pad_top :: lv_style_int_t
  style_pad_bottom :: lv_style_int_t
  style_scale_width :: lv_style_int_t
  style_line_color :: lv_color_t
  style_scale_grad_color :: lv_color_t
  style_scale_end_color :: lv_color_t
  style_scale_end_line_width :: lv_style_int_t
  init_draw_line_dsc :: lv_draw_line_dsc_t
  txt_get_size :: "string \<Rightarrow> lv_point_t"
  utils_num_to_str :: "int32_t \<Rightarrow> string"

text \<open>
  Modelled from the spec: \<open>lv_area_get_width\<close>, \<open>lv_area_get_height\<close> (lv_misc/lv_area.h),
  \<open>lv_obj_get_width\<close> and \<open>lv_obj_get_height\<close> (lv_core/lv_obj.c) are not among the sources
  at hand. The spec speaks of the width and height of a rectangle; an area holds its corner
  pixels, both included, and the size of an object is the size of its coordinates.
\<close>

definition lv_area_get_width :: "lv_area_t \<Rightarrow> lv_coord_t" where
  "lv_area_get_width a = to_16 (int_of_s16 (x2 a) - int_of_s16 (x1 a) + 1)"

definition lv_area_get_height :: "lv_area_t \<Rightarrow> lv_coord_t" where
  "lv_area_get_height a = to_16 (int_of_s16 (y2 a) - int_of_s16 (y1 a) + 1)"

definition lv_obj_get_width :: "lv_obj_t \<Rightarrow> lv_coord_t" where
  "lv_obj_get_width obj = lv_area_get_width (coords obj)"

definition lv_obj_get_height :: "lv_obj_t \<Rightarrow> lv_coord_t" where
  "lv_obj_get_height obj = lv_area_get_height (coords obj)"

subsection \<open>The renderer: \<open>lv_linearscale_draw_scale\<close>\<close>

text \<open>
  The faults of the render pass: the division of line 288 by a zero range; the same division
  of the least \<open>int\<close> by -1, whose quotient is no \<open>int\<close> (the program is stopped by the
  processor's division trap); and the modulo of line 330 by a zero step.
\<close>

datatype fault =
    Level_division_by_zero
  | Level_division_overflow
  | Minor_modulo_by_zero

text \<open>
  What one iteration draws: the tick line and, for a major tick, its label. \<open>lv_draw_label\<close>
  receives the area and the text; \<open>label_val\<close> records the number \<open>scale_act\<close> the text was
  made from.
\<close>

record label_draw =
  label_cord :: lv_area_t
  label_txt :: string
  label_val :: int32_t

record tick_draw =
  line_p1 :: lv_point_t
  line_p2 :: lv_point_t
  line_dsc :: lv_draw_line_dsc_t
  tick_label :: "label_draw option"

text \<open>Line 287: \<open>hor = objw >= objh\<close>.\<close>

definition scale_hor :: "lv_obj_t \<Rightarrow> bool" where
  "scale_hor lscale = (lv_obj_get_height lscale \<le>s lv_obj_get_width lscale)"

text \<open>
  Line 288: the fill level, an \<open>int16_t\<close>. The division faults on a zero range, and on
  the least \<open>int\<close> divided by -1.
\<close>

definition scale_level :: "lv_linearscale_ext_t \<Rightarrow> fault + int16_t" where
  "scale_level ext =
     (let num = (cur_value ext - min_value ext) * int_of_u16 (line_cnt ext);
          den = max_value ext - min_value ext
      in if den = 0 then Inl Level_division_by_zero
         else if num = - 2147483648 \<and> den = - 1 then Inl Level_division_overflow
         else Inr (to_16 (c_div num den)))"

text \<open>Lines 297 to 302: the indicator area.\<close>

definition scale_indic_area :: "lv_host_t \<Rightarrow> lv_obj_t \<Rightarrow> lv_area_t" where
  "scale_indic_area host lscale =
     \<lparr>x1 = x1 (coords lscale) + style_pad_left host,
      y1 = y1 (coords lscale) + style_pad_top host,
      x2 = x2 (coords lscale) - style_pad_right host,
      y2 = y2 (coords lscale) - style_pad_bottom host\<rparr>"

text \<open>Lines 322 to 324: the distance between two major ticks, an \<open>int16_t\<close>.\<close>

definition scale_label_counter :: "lv_linearscale_ext_t \<Rightarrow> int16_t" where
  "scale_label_counter ext =
     (if 1 < label_cnt ext
      then to_16 (c_div (int_of_u16 (line_cnt ext)) (int_of_u16 (label_cnt ext) - 1))
      else 0)"

text \<open>Line 330: \<open>minor = (i % label_counter) != 0\<close>.\<close>

definition tick_minor :: "int16_t \<Rightarrow> uint16_t \<Rightarrow> fault + bool" where
  "tick_minor label_counter i =
     (if int_of_s16 label_counter = 0 then Inl Minor_modulo_by_zero
      else Inr (c_mod (int_of_u16 i) (int_of_s16 label_counter) \<noteq> 0))"

text \<open>Line 331.\<close>

definition tick_width :: "lv_host_t \<Rightarrow> bool \<Rightarrow> lv_style_int_t" where
  "tick_width host minor =
     (if minor then to_16 (c_div (int_of_s16 (style_scale_width host)) 2)
      else style_scale_width host)"

text \<open>Lines 335 and 349: the offset of tick \<open>i\<close> along an axis of the given extent.\<close>

definition tick_offset :: "lv_linearscale_ext_t \<Rightarrow> c_int \<Rightarrow> uint16_t \<Rightarrow> c_int" where
  "tick_offset ext extent i =
     c_div (c_div (100 * extent * int_of_u16 i) (int_of_u16 (line_cnt ext) - 1)) 100"

text \<open>Lines 333 to 360: the end points of the tick line.\<close>

definition tick_points ::
  "lv_linearscale_ext_t \<Rightarrow> lv_area_t \<Rightarrow> bool \<Rightarrow> lv_style_int_t \<Rightarrow> uint16_t
     \<Rightarrow> lv_point_t \<times> lv_point_t" where
  "tick_points ext indic_area hor tw i =
     (if hor then
        let w = int_of_s16 (x2 indic_area) - int_of_s16 (x1 indic_area);
            xo = tick_offset ext w i;
            p1x = to_16 (int_of_s16 (x1 indic_area) + xo)
        in if align ext = LV_LINEARSCALE_ALIGN_TOP
           then (\<lparr>pt_x = p1x, pt_y = y1 indic_area\<rparr>,
                 \<lparr>pt_x = p1x, pt_y = y1 indic_area + tw\<rparr>)
           else (\<lparr>pt_x = p1x, pt_y = y2 indic_area - tw\<rparr>,
                 \<lparr>pt_x = p1x, pt_y = y2 indic_area\<rparr>)
      else
        let h = int_of_s16 (y2 indic_area) - int_of_s16 (y1 indic_area);
            yo = tick_offset ext h i;
            p1y = to_16 (int_of_s16 (y2 indic_area) - yo)
        in if align ext = LV_LINEARSCALE_ALIGN_LEFT
           then (\<lparr>pt_x = x1 indic_area, pt_y = p1y\<rparr>,
                 \<lparr>pt_x = x1 indic_area + tw, pt_y = p1y\<rparr>)
           else (\<lparr>pt_x = x2 indic_area - tw, pt_y = p1y\<rparr>,
                 \<lparr>pt_x = x2 indic_area, pt_y = p1y\<rparr>))"

text \<open>
  Lines 362 to 368: the line descriptor is shared by all iterations; an iteration at or
  beyond the level writes its colour and width, one below the level its colour only.
\<close>

definition tick_line_dsc ::
  "lv_host_t \<Rightarrow> lv_linearscale_ext_t \<Rightarrow> int16_t \<Rightarrow> lv_draw_line_dsc_t \<Rightarrow> uint16_t
     \<Rightarrow> lv_draw_line_dsc_t" where
  "tick_line_dsc host ext level dsc i =
     (if int_of_s16 level \<le>s int_of_u16 i
      then dsc\<lparr>color := style_scale_end_color host,
               width := style_scale_end_line_width host\<rparr>
      else dsc\<lparr>color := lv_color_mix (style_scale_grad_color host) (style_line_color host)
                           (to_u8 (c_div (255 * int_of_u16 i) (int_of_u16 (line_cnt ext))))\<rparr>)"

text \<open>Lines 375 to 381: the value of the label and its text.\<close>

definition tick_scale_act :: "lv_linearscale_ext_t \<Rightarrow> uint16_t \<Rightarrow> int32_t" where
  "tick_scale_act ext i =
     c_div ((max_value ext - min_value ext) * int_of_u16 i) (int_of_u16 (line_cnt ext) - 1)
       + min_value ext"

definition tick_scale_txt :: "lv_host_t \<Rightarrow> lv_linearscale_ext_t \<Rightarrow> int32_t \<Rightarrow> string" where
  "tick_scale_txt host ext scale_act =
     (case format_cb ext of
        None \<Rightarrow> utils_num_to_str host scale_act
      | Some cb \<Rightarrow> cb scale_act)"

text \<open>Lines 383 to 412: where the label goes.\<close>

definition tick_label_cord ::
  "lv_host_t \<Rightarrow> lv_linearscale_ext_t \<Rightarrow> bool \<Rightarrow> lv_style_int_t \<Rightarrow> lv_point_t \<Rightarrow> lv_point_t
     \<Rightarrow> lv_point_t \<Rightarrow> lv_area_t" where
  "tick_label_cord host ext hor tw p1 p2 label_size =
     (let half_x = c_div (int_of_s16 (pt_x label_size)) 2;
          half_y = c_div (int_of_s16 (pt_y label_size)) 2;
          c1 =
            (if hor then
               if align ext = LV_LINEARSCALE_ALIGN_TOP
               then (to_16 (int_of_s16 (pt_x p1) - half_x), pt_y p2 + style_pad_bottom host)
               else (to_16 (int_of_s16 (pt_x p1) - half_x),
                     to_16 (int_of_s16 (pt_y p1) - int_of_s16 tw
                              - c_div (int_of_s16 (pt_y label_size)) 8))
             else
               if align ext = LV_LINEARSCALE_ALIGN_LEFT
               then (pt_x p2, to_16 (int_of_s16 (pt_y p1) - half_y))
               else (pt_x p1 - pt_x label_size, to_16 (int_of_s16 (pt_y p1) - half_y)))
      in \<lparr>x1 = fst c1, y1 = snd c1,
          x2 = fst c1 + pt_x label_size, y2 = snd c1 + pt_y label_size\<rparr>)"

text \<open>Lines 330 to 415: one iteration of the loop. It returns what it drew and the line
  descriptor as it leaves it.\<close>

definition draw_tick ::
  "lv_host_t \<Rightarrow> lv_obj_t \<Rightarrow> bool \<Rightarrow> int16_t \<Rightarrow> int16_t \<Rightarrow> lv_draw_line_dsc_t \<Rightarrow> uint16_t
     \<Rightarrow> fault + tick_draw \<times> lv_draw_line_dsc_t" where
  "draw_tick host lscale hor level label_counter dsc i =
     (let ext = ext_attr lscale
      in case tick_minor label_counter i of
           Inl f \<Rightarrow> Inl f
         | Inr minor \<Rightarrow>
             let tw = tick_width host minor;
                 (p1, p2) = tick_points ext (scale_indic_area host lscale) hor tw i;
                 dsc' = tick_line_dsc host ext level dsc i;
                 lbl =
                   (if \<not> minor then
                      let scale_act = tick_scale_act ext i;
                          scale_txt = tick_scale_txt host ext scale_act;
                          label_size = txt_get_size host scale_txt
                      in Some \<lparr>label_cord = tick_label_cord host ext hor tw p1 p2 label_size,
                               label_txt = scale_txt,
                               label_val = scale_act\<rparr>
                    else None)
             in Inr (\<lparr>line_p1 = p1, line_p2 = p2, line_dsc = dsc', tick_label = lbl\<rparr>, dsc'))"

text \<open>Lines 329 to 416: the loop, from index \<open>i\<close> on.\<close>

function draw_ticks ::
  "lv_host_t \<Rightarrow> lv_obj_t \<Rightarrow> bool \<Rightarrow> int16_t \<Rightarrow> int16_t \<Rightarrow> lv_draw_line_dsc_t \<Rightarrow> uint16_t
     \<Rightarrow> fault + tick_draw list" where
  "draw_ticks host lscale hor level label_counter dsc i =
     (if i < line_cnt (ext_attr lscale) then
        (case draw_tick host lscale hor level label_counter dsc i of
           Inl f \<Rightarrow> Inl f
         | Inr (t, dsc') \<Rightarrow>
             (case draw_ticks host lscale hor level label_counter dsc' (i + 1) of
                Inl f \<Rightarrow> Inl f
              | Inr ts \<Rightarrow> Inr (t # ts)))
      else Inr [])"
  by pat_completeness auto
termination
proof (relation "measure (\<lambda>(host, lscale, hor, level, label_counter, dsc, i).
                            unat (line_cnt (ext_attr lscale)) - unat i)")
  show "wf (measure (\<lambda>(host, lscale, hor, level, label_counter, dsc, i).
                       unat (line_cnt (ext_attr lscale)) - unat i))"
    by simp
next
  fix host :: lv_host_t and lscale :: lv_obj_t and hor :: bool
    and level label_counter :: int16_t and dsc :: lv_draw_line_dsc_t and i :: uint16_t
    and xa :: "tick_draw \<times> lv_draw_line_dsc_t" and t :: tick_draw
    and dsc' :: lv_draw_line_dsc_t
  assume less: "i < line_cnt (ext_attr lscale)"
  then have "unat i < unat (line_cnt (ext_attr lscale))"
    by (simp add: word_less_nat_alt)
  moreover from less have "unat (i + 1) = Suc (unat i)"
    by unat_arith
  ultimately show "((host, lscale, hor, level, label_counter, dsc', i + 1),
                    (host, lscale, hor, level, label_counter, dsc, i))
                   \<in> measure (\<lambda>(host, lscale, hor, level, label_counter, dsc, i).
                                unat (line_cnt (ext_attr lscale)) - unat i)"
    by simp
qed

text \<open>
  \<open>lv_linearscale_draw_scale\<close>: the ticks drawn, in the order of the calls, or the fault.
  The clip area is handed on to the drawing primitives unchanged and is left out.
\<close>

definition lv_linearscale_draw_scale :: "lv_host_t \<Rightarrow> lv_obj_t \<Rightarrow> fault + tick_draw list" where
  "lv_linearscale_draw_scale host lscale =
     (let ext = ext_attr lscale;
          hor = scale_hor lscale
      in case scale_level ext of
           Inl f \<Rightarrow> Inl f
         | Inr level \<Rightarrow>
             let dsc = (init_draw_line_dsc host)\<lparr>raw_end := True\<rparr>;
                 label_counter = scale_label_counter ext
             in if 1 < line_cnt ext
                then draw_ticks host lscale hor level label_counter dsc 0
                else Inr [])"

subsection \<open>The design callback\<close>

datatype lv_design_mode_t = LV_DESIGN_DRAW_MAIN | LV_DESIGN_DRAW_POST | LV_DESIGN_COVER_CHK

datatype lv_design_res_t = LV_DESIGN_RES_OK | LV_DESIGN_RES_NOT_COVER

datatype draw_call =
    Draw_rect lv_area_t
  | Draw_line lv_point_t lv_point_t lv_draw_line_dsc_t
  | Draw_label lv_area_t string

definition tick_calls :: "tick_draw \<Rightarrow> draw_call list" where
  "tick_calls t =
     Draw_line (line_p1 t) (line_p2 t) (line_dsc t)
       # (case tick_label t of
            None \<Rightarrow> []
          | Some l \<Rightarrow> [Draw_label (label_cord l) (label_txt l)])"

definition lv_linearscale_design ::
  "lv_host_t \<Rightarrow> lv_obj_t \<Rightarrow> lv_design_mode_t \<Rightarrow> fault + lv_design_res_t \<times> draw_call list" where
  "lv_linearscale_design host lscale mode =
     (if mode = LV_DESIGN_COVER_CHK then Inr (LV_DESIGN_RES_NOT_COVER, [])
      else if mode = LV_DESIGN_DRAW_MAIN then
        (case lv_linearscale_draw_scale host lscale of
           Inl f \<Rightarrow> Inl f
         | Inr ts \<Rightarrow> Inr (LV_DESIGN_RES_OK, Draw_rect (coords lscale) # concat (map tick_calls ts)))
      else Inr (LV_DESIGN_RES_OK, []))"

subsection \<open>Notions used by the properties\<close>

text \<open>
  The bound on the stored value, for a range that is not inverted.
\<close>

definition range_inv :: "lv_linearscale_ext_t \<Rightarrow> bool" where
  "range_inv e =
     (min_value e \<le>s max_value e \<longrightarrow> min_value e \<le>s cur_value e \<and> cur_value e \<le>s max_value e)"

text \<open>Lines 129 and 130: the value that \<open>lv_linearscale_set_value\<close> stores for the argument \<open>v\<close>.\<close>

definition clamp_to_range :: "lv_linearscale_ext_t \<Rightarrow> int32_t \<Rightarrow> int32_t" where
  "clamp_to_range ext v =
     (let c = (if max_value ext <s v then max_value ext else v)
      in if c <s min_value ext then min_value ext else c)"

text \<open>Concrete objects for the examples.\<close>

definition default_area :: lv_area_t where
  "default_area = \<lparr>x1 = 0, y1 = 0, x2 = 149, y2 = 149\<rparr>"

definition scale_at_100 :: lv_obj_t where
  "scale_at_100 = lv_linearscale_set_value (fresh_scale default_area) 100"

text \<open>The ticks of a pass that returned, none for a pass that faulted.\<close>

definition drawn_ticks :: "fault + tick_draw list \<Rightarrow> tick_draw list" where
  "drawn_ticks r = (case r of Inl f \<Rightarrow> [] | Inr ts \<Rightarrow> ts)"

text \<open>The number on the label of a drawn tick, if it has one.\<close>

definition drawn_label_value :: "tick_draw \<Rightarrow> int option" where
  "drawn_label_value t = (case tick_label t of None \<Rightarrow> None | Some l \<Rightarrow> Some (sint (label_val l)))"

text \<open>
  The formulas as the spec words them, to compare the code with: \<open>round(a / b)\<close> is the
  quotient rounded to the nearest integer, \<open>round((length * i) / (lineCount - 1))\<close> the
  position of tick \<open>i\<close>.
\<close>

definition spec_round_div :: "int \<Rightarrow> int \<Rightarrow> int" where
  "spec_round_div a b = round (real_of_int a / real_of_int b)"

definition spec_tick_offset :: "int \<Rightarrow> int \<Rightarrow> int \<Rightarrow> int" where
  "spec_tick_offset len i n = spec_round_div (len * i) (n - 1)"

text \<open>A host without padding, and one with a left padding of 20.\<close>

definition plain_host :: lv_host_t where
  "plain_host =
     \<lparr>style_pad_left = 0, style_pad_right = 0, style_pad_top = 0, style_pad_bottom = 0,
      style_scale_width = 10,
      style_line_color = \<lparr>ch_red = 255, ch_green = 0, ch_blue = 0\<rparr>,
      style_scale_grad_color = \<lparr>ch_red = 0, ch_green = 0, ch_blue = 255\<rparr>,
      style_scale_end_color = \<lparr>ch_red = 128, ch_green = 128, ch_blue = 128\<rparr>,
      style_scale_end_line_width = 1,
      init_draw_line_dsc =
        \<lparr>color = \<lparr>ch_red = 255, ch_green = 0, ch_blue = 0\<rparr>, width = 2, raw_end = False\<rparr>,
      txt_get_size = (\<lambda>s. \<lparr>pt_x = 8 * of_nat (length s), pt_y = 12\<rparr>),
      utils_num_to_str = (\<lambda>v. ''n'')\<rparr>"

definition padded_host :: lv_host_t where
  "padded_host = plain_host\<lparr>style_pad_left := 20\<rparr>"

text \<open>The default scale with one label; scales of four and of three ticks on small areas.\<close>

definition unlabelled_scale :: lv_obj_t where
  "unlabelled_scale = lv_linearscale_set_scale (fresh_scale default_area) 26 1"

definition four_tick_scale :: lv_obj_t where
  "four_tick_scale =
     lv_linearscale_set_scale (fresh_scale \<lparr>x1 = 0, y1 = 0, x2 = 10, y2 = 4\<rparr>) 4 2"

definition tall_four_tick_scale :: lv_obj_t where
  "tall_four_tick_scale =
     lv_linearscale_set_scale (fresh_scale \<lparr>x1 = 0, y1 = 0, x2 = 4, y2 = 10\<rparr>) 4 2"

definition wide_scale :: lv_obj_t where
  "wide_scale = lv_linearscale_set_scale (fresh_scale \<lparr>x1 = 0, y1 = 0, x2 = 99, y2 = 89\<rparr>) 3 2"

definition tall_scale :: lv_obj_t where
  "tall_scale = lv_linearscale_set_scale (fresh_scale \<lparr>x1 = 0, y1 = 0, x2 = 89, y2 = 99\<rparr>) 3 2"

definition square_scale :: lv_obj_t where
  "square_scale = fresh_scale \<lparr>x1 = 0, y1 = 0, x2 = 99, y2 = 99\<rparr>"

text \<open>
  \<open>floor((currentValue - minValue) * lineCount / (maxValue - minValue))\<close>, the fill level as
  the spec words it; the spec's test for a major tick, \<open>i mod floor(lineCount / (labelCount - 1)) = 0\<close>;
  and the spec's label value \<open>round((maxValue - minValue) * i / (lineCount - 1)) + minValue\<close>.
\<close>

definition spec_fill_level :: "int \<Rightarrow> int \<Rightarrow> int \<Rightarrow> int \<Rightarrow> int" where
  "spec_fill_level cur mn mx n = \<lfloor>real_of_int ((cur - mn) * n) / real_of_int (mx - mn)\<rfloor>"

definition spec_major :: "int \<Rightarrow> int \<Rightarrow> int \<Rightarrow> bool" where
  "spec_major n labels i = (i mod (n div (labels - 1)) = 0)"

definition spec_label_value :: "int \<Rightarrow> int \<Rightarrow> int \<Rightarrow> int \<Rightarrow> int" where
  "spec_label_value mn mx i n = spec_round_div ((mx - mn) * i) (n - 1) + mn"

text \<open>
  How far a colour is from another: the sum of the distances of the three channels.
\<close>

definition channel_dist :: "uint8_t \<Rightarrow> uint8_t \<Rightarrow> int" where
  "channel_dist a b = \<bar>uint a - uint b\<bar>"

definition color_dist :: "lv_color_t \<Rightarrow> lv_color_t \<Rightarrow> int" where
  "color_dist c d =
     channel_dist (ch_red c) (ch_red d) + channel_dist (ch_green c) (ch_green d)
       + channel_dist (ch_blue c) (ch_blue d)"

text \<open>
  The default scale at value 50; a scale of 40000 ticks and two labels at value 100; a scale
  of three ticks and six labels; a scale of four ticks and three labels over the range 0 to 10.
\<close>

definition half_scale :: lv_obj_t where
  "half_scale = lv_linearscale_set_value (fresh_scale default_area) 50"

definition many_ticks_scale :: lv_obj_t where
  "many_ticks_scale =
     lv_linearscale_set_value (lv_linearscale_set_scale (fresh_scale default_area) 40000 2) 100"

definition few_ticks_scale :: lv_obj_t where
  "few_ticks_scale = lv_linearscale_set_scale (fresh_scale default_area) 3 6"

definition ten_range_scale :: lv_obj_t where
  "ten_range_scale =
     lv_linearscale_set_scale (lv_linearscale_set_range (fresh_scale default_area) 0 10) 4 3"

text \<open>
  What the setters keep about the stored value: it lies in a range that is not inverted, and
  it is the minimum of an inverted one.
\<close>

definition stored_value_inv :: "lv_linearscale_ext_t \<Rightarrow> bool" where
  "stored_value_inv e =
     ((min_value e \<le>s max_value e \<longrightarrow> min_value e \<le>s cur_value e \<and> cur_value e \<le>s max_value e) \<and>
      (max_value e <s min_value e \<longrightarrow> cur_value e = min_value e))"

text \<open>
  A host with four different paddings; the default scale over the inverted range 10 to 5,
  and with four ticks and three labels; the scale of 40000 ticks at value 50.
\<close>

definition framed_host :: lv_host_t where
  "framed_host =
     plain_host\<lparr>style_pad_left := 20, style_pad_right := 10, style_pad_top := 5,
                 style_pad_bottom := 7\<rparr>"

definition inverted_scale :: lv_obj_t where
  "inverted_scale = lv_linearscale_set_range (fresh_scale default_area) 10 5"

definition inverted_four_tick_scale :: lv_obj_t where
  "inverted_four_tick_scale = lv_linearscale_set_scale inverted_scale 4 3"

definition many_ticks_half_scale :: lv_obj_t where
  "many_ticks_half_scale =
     lv_linearscale_set_value (lv_linearscale_set_scale (fresh_scale default_area) 40000 2) 50"

section \<open>Properties\<close>

text \<open>The freshly created scale is what \<open>lv_linearscale_create\<close> returns without a copy.\<close>

lemma create_without_copy:
  "lv_linearscale_create dpi (Some area) True None
     = Some (fresh_scale (lv_obj_set_size area (to_16 (c_div (3 * dpi) 2))
                            (to_16 (c_div (3 * dpi) 2))))"
  by (simp add: lv_linearscale_create_def fresh_scale_def)

lemmas setter_defs = lv_linearscale_set_value_def lv_linearscale_set_range_def
  lv_linearscale_set_scale_def lv_linearscale_set_alignment_def
  lv_linearscale_set_formatter_cb_def lv_obj_invalidate_def

subsection \<open>The stored value and the range\<close>

lemma set_value_range_inv:
  "range_inv (ext_attr s) \<Longrightarrow> range_inv (ext_attr (lv_linearscale_set_value s v))"
  by (auto simp: range_inv_def lv_linearscale_set_value_def lv_obj_invalidate_def Let_def
      word_sle_eq word_sless_alt)

lemma set_range_range_inv:
  "range_inv (ext_attr s) \<Longrightarrow> range_inv (ext_attr (lv_linearscale_set_range s mn mx))"
  by (auto simp: range_inv_def lv_linearscale_set_range_def lv_linearscale_set_value_def
      lv_obj_invalidate_def Let_def word_sle_eq word_sless_alt)

lemma set_scale_range_inv:
  "range_inv (ext_attr s) \<Longrightarrow> range_inv (ext_attr (lv_linearscale_set_scale s lines labels))"
  by (simp add: range_inv_def lv_linearscale_set_scale_def lv_obj_invalidate_def Let_def)

lemma set_alignment_range_inv:
  "range_inv (ext_attr s) \<Longrightarrow> range_inv (ext_attr (lv_linearscale_set_alignment s dir))"
  by (simp add: range_inv_def lv_linearscale_set_alignment_def lv_obj_invalidate_def Let_def)

lemma set_formatter_range_inv:
  "range_inv (ext_attr s) \<Longrightarrow> range_inv (ext_attr (lv_linearscale_set_formatter_cb s cb))"
  by (simp add: range_inv_def lv_linearscale_set_formatter_cb_def)

lemma call_setter_range_inv:
  "range_inv (ext_attr s) \<Longrightarrow> range_inv (ext_attr (call_setter s c))"
  by (cases c)
    (simp_all add: set_value_range_inv set_range_range_inv set_scale_range_inv
      set_alignment_range_inv set_formatter_range_inv)

lemma foldl_range_inv:
  "range_inv (ext_attr s) \<Longrightarrow> range_inv (ext_attr (foldl call_setter s cs))"
  by (induction cs arbitrary: s) (simp_all add: call_setter_range_inv)

lemma fresh_range_inv: "range_inv (ext_attr (fresh_scale a))"
  by (simp add: range_inv_def fresh_scale_def word_sle_eq)

text \<open>
  C1, as stated, fails: on the freshly created scale (value 0, range 0 to 100) the call
  \<open>lv_linearscale_set_range(10, 5)\<close> stores the inverted range and the value 10, and
  \<open>10 \<le> 10 \<le> 5\<close> does not hold.
\<close>

theorem inverted_range_breaks_value_bounds:
  "\<not> (min_value (ext_attr (lv_linearscale_set_range (fresh_scale default_area) 10 5))
        \<le>s cur_value (ext_attr (lv_linearscale_set_range (fresh_scale default_area) 10 5)) \<and>
      cur_value (ext_attr (lv_linearscale_set_range (fresh_scale default_area) 10 5))
        \<le>s max_value (ext_attr (lv_linearscale_set_range (fresh_scale default_area) 10 5)))"
  by (simp add: fresh_scale_def default_area_def setter_defs Let_def word_sless_alt word_sle_eq)

text \<open>
  C1, amended: after any sequence of setter calls on a freshly created scale, and after
  any setter call on an object for which this already holds, the stored value lies between
  the stored minimum and maximum whenever the stored minimum is not above the stored
  maximum. In particular, with the stored value 100 and the range 0 to 100, the call
  \<open>lv_linearscale_set_range(0, 50)\<close> makes \<open>lv_linearscale_get_value\<close> return 50.
\<close>

theorem setters_keep_value_in_range:
  "range_inv (ext_attr (foldl call_setter (fresh_scale area) calls)) \<and>
   (range_inv (ext_attr s) \<longrightarrow> range_inv (ext_attr (call_setter s c))) \<and>
   (cur_value (ext_attr s') = 100 \<and> min_value (ext_attr s') = 0 \<and> max_value (ext_attr s') = 100
      \<longrightarrow> lv_linearscale_get_value (lv_linearscale_set_range s' 0 50) = 50)"
proof (intro conjI impI)
  show "range_inv (ext_attr (foldl call_setter (fresh_scale area) calls))"
    by (rule foldl_range_inv [OF fresh_range_inv])
next
  assume "range_inv (ext_attr s)"
  then show "range_inv (ext_attr (call_setter s c))"
    by (rule call_setter_range_inv)
next
  assume "cur_value (ext_attr s') = 100 \<and> min_value (ext_attr s') = 0
            \<and> max_value (ext_attr s') = 100"
  then show "lv_linearscale_get_value (lv_linearscale_set_range s' 0 50) = 50"
    by (simp add: lv_linearscale_get_value_def lv_linearscale_set_range_def
        lv_linearscale_set_value_def lv_obj_invalidate_def Let_def word_sless_alt)
qed

text \<open>
  The amended C1 at work: \<open>set_value(150)\<close> then \<open>set_range(0, 50)\<close> on a fresh scale leaves
  the range 0 to 50 and the value 50.
\<close>

theorem setters_keep_value_in_range_witness:
  "min_value (ext_attr (foldl call_setter (fresh_scale default_area)
                          [Set_value 150, Set_range 0 50]))
     \<le>s max_value (ext_attr (foldl call_setter (fresh_scale default_area)
                                [Set_value 150, Set_range 0 50])) \<and>
   sint (cur_value (ext_attr (foldl call_setter (fresh_scale default_area)
                                [Set_value 150, Set_range 0 50]))) = 50 \<and>
   range_inv (ext_attr scale_at_100) \<and>
   range_inv (ext_attr (call_setter scale_at_100 (Set_range 0 50))) \<and>
   cur_value (ext_attr scale_at_100) = 100 \<and>
   lv_linearscale_get_value (lv_linearscale_set_range scale_at_100 0 50) = 50"
  using setters_keep_value_in_range
    [of default_area "[Set_value 150, Set_range 0 50]" scale_at_100 "Set_range 0 50" scale_at_100]
  by (simp add: range_inv_def scale_at_100_def fresh_scale_def default_area_def setter_defs
      Let_def word_sless_alt word_sle_eq)

subsection \<open>Redraw requests\<close>

lemma clamp_to_range_is_clamp:
  "min_value e \<le>s max_value e \<Longrightarrow>
     sint (clamp_to_range e v) = max (sint (min_value e)) (min (sint (max_value e)) (sint v))"
  by (auto simp: clamp_to_range_def Let_def word_sle_eq word_sless_alt)

lemma set_value_same: "lv_linearscale_set_value s (cur_value (ext_attr s)) = s"
  by (simp add: lv_linearscale_set_value_def)

lemma set_value_other:
  "cur_value (ext_attr s) \<noteq> v \<Longrightarrow>
     lv_linearscale_set_value s v
       = lv_obj_invalidate (s\<lparr>ext_attr := (ext_attr s)\<lparr>cur_value := clamp_to_range (ext_attr s) v\<rparr>\<rparr>)"
  by (simp add: lv_linearscale_set_value_def clamp_to_range_def Let_def)

text \<open>
  C2, as stated, fails: with the stored value 100 outside the new range 0 to 50, the call
  \<open>lv_linearscale_set_range(0, 50)\<close> issues one redraw request, not two.
\<close>

theorem set_range_outside_value_one_redraw:
  "cur_value (ext_attr scale_at_100) = 100 \<and> \<not> (100 :: int32_t) \<le>s 50 \<and>
   invalidated (lv_linearscale_set_range scale_at_100 0 50) \<noteq> invalidated scale_at_100 + 2 \<and>
   invalidated (lv_linearscale_set_range scale_at_100 0 50) = invalidated scale_at_100 + 1"
  by (simp add: scale_at_100_def fresh_scale_def default_area_def setter_defs Let_def
      word_sless_alt word_sle_eq)

text \<open>
  C2, amended: a call \<open>lv_linearscale_set_range(min, max)\<close> that changes the stored range
  stores the bounds and the clamped value by direct assignment and issues exactly one redraw
  request; the \<open>lv_linearscale_set_value\<close> calls on that path receive the value just stored
  and return at their equality guard without a redraw request.
\<close>

theorem set_range_requests_one_redraw:
  "(min_value (ext_attr s) \<noteq> mn \<or> max_value (ext_attr s) \<noteq> mx \<longrightarrow>
      lv_linearscale_set_range s mn mx =
        lv_obj_invalidate
          (s\<lparr>ext_attr := (ext_attr s)\<lparr>max_value := mx, min_value := mn,
                                       cur_value := clamp_to_range
                                          ((ext_attr s)\<lparr>max_value := mx, min_value := mn\<rparr>)
                                          (cur_value (ext_attr s))\<rparr>\<rparr>) \<and>
      invalidated (lv_linearscale_set_range s mn mx) = Suc (invalidated s)) \<and>
   lv_linearscale_set_value s (cur_value (ext_attr s)) = s"
proof (intro conjI impI)
  assume changed: "min_value (ext_attr s) \<noteq> mn \<or> max_value (ext_attr s) \<noteq> mx"
  let ?stored = "s\<lparr>ext_attr := (ext_attr s)\<lparr>max_value := mx, min_value := mn,
                                       cur_value := clamp_to_range
                                          ((ext_attr s)\<lparr>max_value := mx, min_value := mn\<rparr>)
                                          (cur_value (ext_attr s))\<rparr>\<rparr>"
  have noop: "lv_linearscale_set_value t (cur_value (ext_attr t)) = t" for t
    by (rule set_value_same)
  show eq: "lv_linearscale_set_range s mn mx = lv_obj_invalidate ?stored"
    using changed
    by (auto simp: lv_linearscale_set_range_def noop clamp_to_range_def Let_def)
  show "invalidated (lv_linearscale_set_range s mn mx) = Suc (invalidated s)"
    unfolding eq by (simp add: lv_obj_invalidate_def)
next
  show "lv_linearscale_set_value s (cur_value (ext_attr s)) = s"
    by (rule set_value_same)
qed

text \<open>
  The amended C2 on the scale at value 100: \<open>set_range(0, 50)\<close> stores 50 and raises the
  count of redraw requests from 1 to 2.
\<close>

theorem set_range_requests_one_redraw_witness:
  "max_value (ext_attr scale_at_100) \<noteq> 50 \<and>
   cur_value (ext_attr (lv_linearscale_set_range scale_at_100 0 50)) = 50 \<and>
   invalidated scale_at_100 = 1 \<and>
   invalidated (lv_linearscale_set_range scale_at_100 0 50) = 2"
  using set_range_requests_one_redraw [of scale_at_100 0 50]
  by (simp add: scale_at_100_def fresh_scale_def default_area_def lv_linearscale_set_value_def
      lv_obj_invalidate_def clamp_to_range_def Let_def word_sless_alt)

text \<open>
  C10: a call \<open>lv_linearscale_set_value(v)\<close> whose argument differs from the stored value,
  while the value it stores for \<open>v\<close> is the stored value again, changes no stored field and
  still issues a redraw request. The value it stores is \<open>v\<close> clamped into the range when the
  range is not inverted; the stored value at the maximum and \<open>v\<close> above it is such a call.
\<close>

theorem set_value_redundant_redraw:
  "(cur_value (ext_attr s) \<noteq> v \<and> clamp_to_range (ext_attr s) v = cur_value (ext_attr s) \<longrightarrow>
      ext_attr (lv_linearscale_set_value s v) = ext_attr s \<and>
      coords (lv_linearscale_set_value s v) = coords s \<and>
      invalidated (lv_linearscale_set_value s v) = Suc (invalidated s)) \<and>
   (min_value (ext_attr s) \<le>s max_value (ext_attr s) \<longrightarrow>
      sint (clamp_to_range (ext_attr s) v)
        = max (sint (min_value (ext_attr s))) (min (sint (max_value (ext_attr s))) (sint v))) \<and>
   (cur_value (ext_attr s) = max_value (ext_attr s) \<and> max_value (ext_attr s) <s v \<and>
    min_value (ext_attr s) \<le>s max_value (ext_attr s) \<longrightarrow>
      cur_value (ext_attr s) \<noteq> v \<and> clamp_to_range (ext_attr s) v = cur_value (ext_attr s))"
proof (intro conjI impI)
  assume a: "cur_value (ext_attr s) \<noteq> v \<and> clamp_to_range (ext_attr s) v = cur_value (ext_attr s)"
  then have eq: "lv_linearscale_set_value s v
                   = lv_obj_invalidate (s\<lparr>ext_attr := (ext_attr s)\<lparr>cur_value := cur_value (ext_attr s)\<rparr>\<rparr>)"
    using set_value_other [of s v] by simp
  show "ext_attr (lv_linearscale_set_value s v) = ext_attr s"
    unfolding eq by (simp add: lv_obj_invalidate_def)
  show "coords (lv_linearscale_set_value s v) = coords s"
    unfolding eq by (simp add: lv_obj_invalidate_def)
  show "invalidated (lv_linearscale_set_value s v) = Suc (invalidated s)"
    unfolding eq by (simp add: lv_obj_invalidate_def)
next
  assume "min_value (ext_attr s) \<le>s max_value (ext_attr s)"
  then show "sint (clamp_to_range (ext_attr s) v)
        = max (sint (min_value (ext_attr s))) (min (sint (max_value (ext_attr s))) (sint v))"
    by (rule clamp_to_range_is_clamp)
next
  assume a: "cur_value (ext_attr s) = max_value (ext_attr s) \<and> max_value (ext_attr s) <s v \<and>
    min_value (ext_attr s) \<le>s max_value (ext_attr s)"
  then show "cur_value (ext_attr s) \<noteq> v"
    by (auto simp: word_sless_alt)
  from a show "clamp_to_range (ext_attr s) v = cur_value (ext_attr s)"
    by (auto simp: clamp_to_range_def Let_def word_sle_eq word_sless_alt)
qed

text \<open>The example of C10: the stored value is at the maximum 100 and the argument is 150.\<close>

theorem set_value_redundant_redraw_witness:
  "cur_value (ext_attr scale_at_100) \<noteq> 150 \<and>
   clamp_to_range (ext_attr scale_at_100) 150 = cur_value (ext_attr scale_at_100) \<and>
   cur_value (ext_attr scale_at_100) = max_value (ext_attr scale_at_100) \<and>
   max_value (ext_attr scale_at_100) <s 150 \<and>
   min_value (ext_attr scale_at_100) \<le>s max_value (ext_attr scale_at_100) \<and>
   sint (clamp_to_range (ext_attr scale_at_100) 150) = 100 \<and>
   ext_attr (lv_linearscale_set_value scale_at_100 150) = ext_attr scale_at_100 \<and>
   invalidated (lv_linearscale_set_value scale_at_100 150) = Suc (invalidated scale_at_100)"
  using set_value_redundant_redraw [of scale_at_100 150]
  by (simp add: scale_at_100_def fresh_scale_def default_area_def setter_defs clamp_to_range_def
      Let_def word_sless_alt word_sle_eq)

subsection \<open>Reading the C arithmetic as integer arithmetic\<close>

lemma sint_int_of_u16: "sint (int_of_u16 w) = uint w"
proof -
  have "- (2 ^ 31) \<le> (0 :: int)"
    by simp
  also have "0 \<le> uint w"
    by simp
  finally have lower: "- (2 ^ 31) \<le> uint w" .
  have upper: "uint w < 2 ^ 31"
    using uint_lt2p [of w] by simp
  from lower upper have "signed_take_bit 31 (uint w) = uint w"
    by (rule signed_take_bit_int_eq_self)
  then show ?thesis
    by (simp add: int_of_u16_def signed_ucast_eq)
qed

lemma sint_int_of_s16: "sint (int_of_s16 w) = sint w"
  by (simp add: int_of_s16_def sint_up_scast is_up)

lemma uint_u16_bound: "uint (w :: 16 word) < 65536"
  using uint_lt2p [of w] by simp

lemma sint_s16_bounds: "- 32768 \<le> sint (w :: 16 word)" "sint (w :: 16 word) < 32768"
  using sint_ge [of w] sint_lt [of w] by simp_all

lemma sint_s32_bounds: "- 2147483648 \<le> sint (w :: 32 word)" "sint (w :: 32 word) < 2147483648"
  using sint_ge [of w] sint_lt [of w] by simp_all

lemma sint_add32:
  "- 2147483648 \<le> sint a + sint b \<Longrightarrow> sint a + sint b < 2147483648
     \<Longrightarrow> sint (a + b :: 32 word) = sint a + sint b"
  by (simp add: sint_word_ariths signed_take_bit_int_eq_self)

lemma sint_sub32:
  "- 2147483648 \<le> sint a - sint b \<Longrightarrow> sint a - sint b < 2147483648
     \<Longrightarrow> sint (a - b :: 32 word) = sint a - sint b"
  by (simp add: sint_word_ariths signed_take_bit_int_eq_self)

lemma sint_mult32:
  "- 2147483648 \<le> sint a * sint b \<Longrightarrow> sint a * sint b < 2147483648
     \<Longrightarrow> sint (a * b :: 32 word) = sint a * sint b"
  by (simp add: sint_word_ariths signed_take_bit_int_eq_self)

lemma sint_to_16: "- 32768 \<le> sint a \<Longrightarrow> sint a < 32768 \<Longrightarrow> sint (to_16 a) = sint a"
  by (simp add: to_16_def signed_scast_eq signed_take_bit_int_eq_self)

lemma uint_to_u8: "0 \<le> sint a \<Longrightarrow> sint a < 256 \<Longrightarrow> uint (to_u8 a) = sint a"
proof -
  assume a: "0 \<le> sint a" "sint a < 256"
  have "uint (scast a :: 8 word) = take_bit 8 (sint a)"
    by transfer simp
  with a show ?thesis
    by (simp add: to_u8_def take_bit_int_eq_self)
qed

lemma div_le_self_int: "0 \<le> k \<Longrightarrow> 0 < l \<Longrightarrow> (k :: int) div l \<le> k"
proof -
  assume a: "0 \<le> k" "0 < l"
  have "k div l \<le> k div 1"
    by (rule zdiv_mono2) (use a in auto)
  then show ?thesis
    by simp
qed

lemma sdiv_pos_bounds:
  fixes k l :: int
  assumes "0 < l"
  shows "0 \<le> k \<Longrightarrow> 0 \<le> k sdiv l \<and> k sdiv l \<le> k"
    and "k \<le> 0 \<Longrightarrow> k \<le> k sdiv l \<and> k sdiv l \<le> 0"
proof -
  assume k: "0 \<le> k"
  then have "k sdiv l = k div l"
    using assms by (simp add: signed_divide_int_def sgn_if)
  moreover have "0 \<le> k div l"
    using k assms by (simp add: pos_imp_zdiv_nonneg_iff)
  moreover have "k div l \<le> k"
    using k assms by (rule div_le_self_int)
  ultimately show "0 \<le> k sdiv l \<and> k sdiv l \<le> k"
    by simp
next
  assume k: "k \<le> 0"
  then have e: "k sdiv l = - ((- k) div l)"
    using assms by (auto simp add: signed_divide_int_def sgn_if)
  have "0 \<le> (- k) div l"
    using k assms by (simp add: pos_imp_zdiv_nonneg_iff)
  moreover have "(- k) div l \<le> - k"
    using k assms by (intro div_le_self_int) simp_all
  ultimately show "k \<le> k sdiv l \<and> k sdiv l \<le> 0"
    using e by simp
qed

lemma sdiv_nonneg: "0 \<le> k \<Longrightarrow> 0 < l \<Longrightarrow> (k :: int) sdiv l = k div l"
  by (simp add: signed_divide_int_def sgn_if)

lemma smod_nonneg: "0 \<le> k \<Longrightarrow> 0 < l \<Longrightarrow> (k :: int) smod l = k mod l"
  by (simp add: signed_modulo_int_def sgn_if)

lemma sint_c_div_pos:
  assumes "0 < sint b"
  shows "sint (c_div a b) = sint a sdiv sint b"
proof -
  have "- 2147483648 \<le> sint a sdiv sint b \<and> sint a sdiv sint b < 2147483648"
    using sdiv_pos_bounds [OF assms, of "sint a"] sint_s32_bounds [of a]
    by (cases "0 \<le> sint a") auto
  then show ?thesis
    by (simp add: c_div_def sint_sbintrunc' signed_take_bit_int_eq_self)
qed

lemma sint_c_div_nonneg:
  assumes "0 \<le> sint a" and "0 < sint b"
  shows "sint (c_div a b) = sint a div sint b"
  using assms by (simp add: sint_c_div_pos sdiv_nonneg)

lemma sint_c_mod_nonneg:
  assumes "0 \<le> sint a" and "0 < sint b"
  shows "sint (c_mod a b) = sint a mod sint b"
proof -
  have "0 \<le> sint a mod sint b" "sint a mod sint b < sint b"
    using assms by simp_all
  moreover have "sint b < 2147483648"
    using sint_s32_bounds [of b] by simp
  ultimately have "sint (word_of_int (sint a mod sint b) :: 32 word) = sint a mod sint b"
    by (simp add: sint_sbintrunc' signed_take_bit_int_eq_self)
  then show ?thesis
    using assms by (simp add: c_mod_def smod_nonneg)
qed

lemma c_mod_eq_0_iff:
  assumes "0 \<le> sint a" and "0 < sint b"
  shows "c_mod a b = 0 \<longleftrightarrow> sint a mod sint b = 0"
  using sint_c_mod_nonneg [OF assms] by (metis sint_0 signed_eq_0_iff)

lemma unat_succ_less: "(i :: 16 word) < n \<Longrightarrow> unat (i + 1) = Suc (unat i)"
  by unat_arith

subsection \<open>The loop of the render pass\<close>

lemma tick_minor_Inr:
  "int_of_s16 lc \<noteq> 0 \<Longrightarrow>
     tick_minor lc i = Inr (c_mod (int_of_u16 i) (int_of_s16 lc) \<noteq> 0)"
  by (simp add: tick_minor_def)

lemma draw_tick_fault:
  "int_of_s16 lc = 0 \<Longrightarrow> draw_tick host lscale hor level lc dsc i = Inl Minor_modulo_by_zero"
  by (simp add: draw_tick_def tick_minor_def)

lemma draw_tick_ok:
  "int_of_s16 lc \<noteq> 0 \<Longrightarrow> \<exists>t d. draw_tick host lscale hor level lc dsc i = Inr (t, d)"
  by (simp add: draw_tick_def tick_minor_def Let_def split: prod.split)

lemma draw_ticks_fault:
  "int_of_s16 lc = 0 \<Longrightarrow> i < line_cnt (ext_attr lscale) \<Longrightarrow>
     draw_ticks host lscale hor level lc dsc i = Inl Minor_modulo_by_zero"
  by (subst draw_ticks.simps) (simp add: draw_tick_fault)

lemma draw_ticks_ok:
  assumes lc: "int_of_s16 lc \<noteq> 0"
  shows "\<exists>ts. draw_ticks host lscale hor level lc dsc i = Inr ts \<and>
           length ts = unat (line_cnt (ext_attr lscale)) - unat i \<and>
           (\<forall>k. unat i \<le> k \<and> k < unat (line_cnt (ext_attr lscale)) \<longrightarrow>
              (\<exists>d d'. draw_tick host lscale hor level lc d (of_nat k)
                         = Inr (ts ! (k - unat i), d')))"
  using lc
proof (induction host lscale hor level lc dsc i rule: draw_ticks.induct)
  case (1 host lscale hor level lc dsc i)
  let ?n = "line_cnt (ext_attr lscale)"
  show ?case
  proof (cases "i < ?n")
    case False
    then have "unat ?n \<le> unat i"
      by (simp add: word_less_nat_alt)
    with False show ?thesis
      by (subst draw_ticks.simps) auto
  next
    case True
    from "1.prems" obtain t d where td: "draw_tick host lscale hor level lc dsc i = Inr (t, d)"
      using draw_tick_ok by blast
    from "1.IH" [OF True td refl "1.prems"]
    obtain ts where ts: "draw_ticks host lscale hor level lc d (i + 1) = Inr ts"
      and len: "length ts = unat ?n - unat (i + 1)"
      and nth: "\<forall>k. unat (i + 1) \<le> k \<and> k < unat ?n \<longrightarrow>
              (\<exists>d d'. draw_tick host lscale hor level lc d (of_nat k)
                         = Inr (ts ! (k - unat (i + 1)), d'))"
      by blast
    have suc: "unat (i + 1) = Suc (unat i)"
      using True by (rule unat_succ_less)
    have lt: "unat i < unat ?n"
      using True by (simp add: word_less_nat_alt)
    have eq: "draw_ticks host lscale hor level lc dsc i = Inr (t # ts)"
      using True td ts by (subst draw_ticks.simps) simp
    have "length (t # ts) = unat ?n - unat i"
      using len suc lt by simp
    moreover have "\<exists>d d'. draw_tick host lscale hor level lc d (of_nat k)
                         = Inr ((t # ts) ! (k - unat i), d')"
      if k: "unat i \<le> k \<and> k < unat ?n" for k
    proof (cases "k = unat i")
      case True
      then show ?thesis
        using td by auto
    next
      case False
      with k have "unat (i + 1) \<le> k \<and> k < unat ?n"
        using suc by simp
      with nth obtain d1 d2 where
        "draw_tick host lscale hor level lc d1 (of_nat k) = Inr (ts ! (k - unat (i + 1)), d2)"
        by blast
      moreover have "(t # ts) ! (k - unat i) = ts ! (k - unat (i + 1))"
        using False k suc by (simp add: nth_Cons')
      ultimately show ?thesis
        by auto
    qed
    ultimately show ?thesis
      using eq by blast
  qed
qed

lemma draw_scale_ok:
  assumes "1 < line_cnt (ext_attr lscale)"
    and "int_of_s16 (scale_label_counter (ext_attr lscale)) \<noteq> 0"
    and "scale_level (ext_attr lscale) = Inr level"
  shows "\<exists>ts. lv_linearscale_draw_scale host lscale = Inr ts \<and>
           length ts = unat (line_cnt (ext_attr lscale)) \<and>
           (\<forall>i. i < line_cnt (ext_attr lscale) \<longrightarrow>
              (\<exists>d d'. draw_tick host lscale (scale_hor lscale) level
                         (scale_label_counter (ext_attr lscale)) d i
                         = Inr (ts ! unat i, d')))"
proof -
  let ?n = "line_cnt (ext_attr lscale)"
  let ?lc = "scale_label_counter (ext_attr lscale)"
  let ?dsc = "(init_draw_line_dsc host)\<lparr>raw_end := True\<rparr>"
  from draw_ticks_ok [OF assms(2), of host lscale "scale_hor lscale" level ?dsc 0]
  obtain ts where ts: "draw_ticks host lscale (scale_hor lscale) level ?lc ?dsc 0 = Inr ts"
    and len: "length ts = unat ?n"
    and nth: "\<forall>k. k < unat ?n \<longrightarrow>
              (\<exists>d d'. draw_tick host lscale (scale_hor lscale) level ?lc d (of_nat k)
                         = Inr (ts ! k, d'))"
    by auto
  have "lv_linearscale_draw_scale host lscale = Inr ts"
    using assms(1,3) ts by (simp add: lv_linearscale_draw_scale_def Let_def)
  moreover have "\<exists>d d'. draw_tick host lscale (scale_hor lscale) level ?lc d i
                         = Inr (ts ! unat i, d')"
    if "i < ?n" for i
  proof -
    from that have "unat i < unat ?n"
      by (simp add: word_less_nat_alt)
    with nth have "\<exists>d d'. draw_tick host lscale (scale_hor lscale) level ?lc d (of_nat (unat i))
                         = Inr (ts ! unat i, d')"
      by blast
    then show ?thesis
      by simp
  qed
  ultimately show ?thesis
    using len by blast
qed

lemma draw_tick_fields:
  assumes "draw_tick host lscale hor level lc d i = Inr (t, d')"
  shows "int_of_s16 lc \<noteq> 0"
    and "line_dsc t = tick_line_dsc host (ext_attr lscale) level d i"
    and "line_p1 t = fst (tick_points (ext_attr lscale) (scale_indic_area host lscale) hor
                            (tick_width host (c_mod (int_of_u16 i) (int_of_s16 lc) \<noteq> 0)) i)"
    and "line_p2 t = snd (tick_points (ext_attr lscale) (scale_indic_area host lscale) hor
                            (tick_width host (c_mod (int_of_u16 i) (int_of_s16 lc) \<noteq> 0)) i)"
    and "c_mod (int_of_u16 i) (int_of_s16 lc) \<noteq> 0 \<Longrightarrow> tick_label t = None"
    and "c_mod (int_of_u16 i) (int_of_s16 lc) = 0 \<Longrightarrow>
           \<exists>l. tick_label t = Some l \<and> label_val l = tick_scale_act (ext_attr lscale) i \<and>
               label_txt l = tick_scale_txt host (ext_attr lscale) (label_val l)"
  using assms
  by (auto simp: draw_tick_def tick_minor_def Let_def split: if_splits prod.splits)

lemma sint_line_cnt_minus_1:
  "1 < n \<Longrightarrow> sint (int_of_u16 n - 1) = uint n - 1 \<and> 0 < uint n - 1"
proof -
  assume "1 < n"
  then have "1 < uint n"
    by (simp add: word_less_def)
  moreover have "uint n < 65536"
    by (rule uint_u16_bound)
  ultimately show ?thesis
    by (simp add: sint_sub32 sint_int_of_u16)
qed

lemma uint_less_of_word_less: "(i :: 16 word) < n \<Longrightarrow> uint i < uint n"
  by (simp add: word_less_def)

lemma div_scaled_100:
  fixes a b :: int
  assumes "0 < b"
  shows "(100 * a) div b div 100 = a div b"
proof -
  have "(100 * a) div b div 100 = (100 * a) div (b * 100)"
    using assms by (simp add: zdiv_zmult2_eq)
  also have "\<dots> = a div b"
    by (simp add: mult.commute)
  finally show ?thesis .
qed

lemma sdiv_nonpos: "k \<le> 0 \<Longrightarrow> 0 < l \<Longrightarrow> (k :: int) sdiv l = - ((- k) div l)"
  by (auto simp add: signed_divide_int_def sgn_if)

lemma sdiv_scaled_100:
  fixes a m :: int
  assumes m: "0 < m"
  shows "(100 * a) sdiv m sdiv 100 = a sdiv m"
proof (cases "0 \<le> a")
  case True
  then have q: "0 \<le> (100 * a) div m"
    using m by (simp add: pos_imp_zdiv_nonneg_iff)
  have "(100 * a) sdiv m sdiv 100 = (100 * a) div m div 100"
    using True m q by (simp add: sdiv_nonneg)
  also have "\<dots> = a div m"
    by (rule div_scaled_100 [OF m])
  finally show ?thesis
    using True m by (simp add: sdiv_nonneg)
next
  case False
  then have neg: "a \<le> 0" "100 * a \<le> 0"
    by simp_all
  have q: "0 \<le> (100 * (- a)) div m"
    using neg m by (simp add: pos_imp_zdiv_nonneg_iff)
  have "(100 * a) sdiv m = - ((100 * (- a)) div m)"
    using sdiv_nonpos [OF neg(2) m] by simp
  then have "(100 * a) sdiv m sdiv 100 = - ((100 * (- a)) div m div 100)"
    using sdiv_nonpos [of "- ((100 * (- a)) div m)" 100] q by simp
  also have "\<dots> = - ((- a) div m)"
    by (simp only: div_scaled_100 [OF m])
  finally show ?thesis
    using sdiv_nonpos [OF neg(1) m] by simp
qed

lemma sdiv_between:
  fixes E k m :: int
  assumes m: "0 < m" and k: "0 \<le> k" "k \<le> m"
  shows "0 \<le> E \<Longrightarrow> 0 \<le> (E * k) sdiv m \<and> (E * k) sdiv m \<le> E"
    and "E \<le> 0 \<Longrightarrow> E \<le> (E * k) sdiv m \<and> (E * k) sdiv m \<le> 0"
proof -
  assume E: "0 \<le> E"
  have nn: "0 \<le> E * k"
    using E k(1) by (rule mult_nonneg_nonneg)
  have "E * k \<le> E * m"
    using k(2) E by (rule mult_left_mono)
  then have "(E * k) div m \<le> (E * m) div m"
    using m by (intro zdiv_mono1) simp_all
  also have "\<dots> = E"
    using m by simp
  finally have "(E * k) div m \<le> E" .
  moreover have "0 \<le> (E * k) div m"
    using nn m by (simp add: pos_imp_zdiv_nonneg_iff)
  ultimately show "0 \<le> (E * k) sdiv m \<and> (E * k) sdiv m \<le> E"
    using nn m by (simp add: sdiv_nonneg)
next
  assume E: "E \<le> 0"
  define F where "F = - E"
  have F: "0 \<le> F"
    using E by (simp add: F_def)
  have np: "E * k \<le> 0"
    using E k(1) by (rule mult_nonpos_nonneg)
  have nn: "0 \<le> F * k"
    using F k(1) by (rule mult_nonneg_nonneg)
  have "F * k \<le> F * m"
    using k(2) F by (rule mult_left_mono)
  then have "(F * k) div m \<le> (F * m) div m"
    using m by (intro zdiv_mono1) simp_all
  also have "\<dots> = F"
    using m by simp
  finally have "(F * k) div m \<le> F" .
  moreover have "0 \<le> (F * k) div m"
    using nn m by (simp add: pos_imp_zdiv_nonneg_iff)
  moreover have "(E * k) sdiv m = - ((F * k) div m)"
    using sdiv_nonpos [OF np m] by (simp add: F_def)
  ultimately show "E \<le> (E * k) sdiv m \<and> (E * k) sdiv m \<le> 0"
    by (simp add: F_def)
qed

lemma tick_offset_val:
  assumes n: "1 < line_cnt e"
    and ext: "- 65536 < sint extent" "sint extent < 65536"
    and no_ov: "- 2147483648 \<le> 100 * sint extent * uint i"
               "100 * sint extent * uint i < 2147483648"
  shows "sint (tick_offset e extent i) = (sint extent * uint i) sdiv (uint (line_cnt e) - 1)"
proof -
  have d: "sint (int_of_u16 (line_cnt e) - 1) = uint (line_cnt e) - 1" "0 < uint (line_cnt e) - 1"
    using sint_line_cnt_minus_1 [OF n] by simp_all
  have hundred: "sint (100 :: 32 word) = 100"
    by simp
  have "- 2147483648 \<le> 100 * sint extent" "100 * sint extent < 2147483648"
    using ext by linarith+
  then have h: "sint (100 * extent) = 100 * sint extent"
    using sint_mult32 [of 100 extent] by (simp add: hundred)
  have p: "sint (100 * extent * int_of_u16 i) = 100 * sint extent * uint i"
    using no_ov sint_mult32 [of "100 * extent" "int_of_u16 i"] by (simp add: h sint_int_of_u16)
  have "0 < sint (int_of_u16 (line_cnt e) - 1)"
    using d by simp
  then have q: "sint (c_div (100 * extent * int_of_u16 i) (int_of_u16 (line_cnt e) - 1))
             = (100 * sint extent * uint i) sdiv (uint (line_cnt e) - 1)"
    using sint_c_div_pos [of "int_of_u16 (line_cnt e) - 1" "100 * extent * int_of_u16 i"]
    by (simp add: p d)
  have "0 < sint (100 :: 32 word)"
    by simp
  then have "sint (tick_offset e extent i)
          = (100 * sint extent * uint i) sdiv (uint (line_cnt e) - 1) sdiv 100"
    unfolding tick_offset_def
    using sint_c_div_pos [of 100 "c_div (100 * extent * int_of_u16 i) (int_of_u16 (line_cnt e) - 1)"]
    by (simp add: q)
  also have "\<dots> = (sint extent * uint i) sdiv (uint (line_cnt e) - 1)"
    using sdiv_scaled_100 [OF d(2), of "sint extent * uint i"] by (simp add: mult.assoc)
  finally show ?thesis .
qed

lemma tick_offset_le:
  assumes n: "1 < line_cnt e" and i: "i < line_cnt e"
    and ext: "- 65536 < sint extent" "sint extent < 65536"
    and no_ov: "- 2147483648 \<le> 100 * sint extent * uint i"
               "100 * sint extent * uint i < 2147483648"
  shows "0 \<le> sint extent \<Longrightarrow>
           0 \<le> sint (tick_offset e extent i) \<and> sint (tick_offset e extent i) \<le> sint extent"
    and "sint extent \<le> 0 \<Longrightarrow>
           sint extent \<le> sint (tick_offset e extent i) \<and> sint (tick_offset e extent i) \<le> 0"
proof -
  have d: "0 < uint (line_cnt e) - 1"
    using sint_line_cnt_minus_1 [OF n] by simp
  have k: "0 \<le> uint i" "uint i \<le> uint (line_cnt e) - 1"
    using uint_less_of_word_less [OF i] by simp_all
  note val = tick_offset_val [OF n ext no_ov]
  show "0 \<le> sint extent \<Longrightarrow>
           0 \<le> sint (tick_offset e extent i) \<and> sint (tick_offset e extent i) \<le> sint extent"
    using sdiv_between(1) [OF d k, of "sint extent"] by (simp add: val)
  show "sint extent \<le> 0 \<Longrightarrow>
           sint extent \<le> sint (tick_offset e extent i) \<and> sint (tick_offset e extent i) \<le> 0"
    using sdiv_between(2) [OF d k, of "sint extent"] by (simp add: val)
qed

lemma tick_offset_0: "tick_offset e extent 0 = 0"
  by (simp add: tick_offset_def int_of_u16_def c_div_def)

lemma sint_extent:
  "sint (int_of_s16 b - int_of_s16 a) = sint b - sint a"
  using sint_s16_bounds [of a] sint_s16_bounds [of b]
  by (simp add: sint_sub32 sint_int_of_s16)

lemma div_less_int:
  fixes a b c :: int
  assumes "a < b * c" and "0 < c"
  shows "a div c < b"
proof (rule ccontr)
  assume "\<not> a div c < b"
  then have "b \<le> a div c"
    by simp
  then have "b * c \<le> a div c * c"
    using assms(2) by (simp add: mult_right_mono)
  also have "a div c * c = a - a mod c"
    by (simp add: minus_mod_eq_div_mult)
  also have "\<dots> \<le> a"
    using assms(2) by simp
  finally show False
    using assms(1) by simp
qed

lemma int_of_s16_eq_0_iff: "int_of_s16 w = 0 \<longleftrightarrow> w = 0"
proof
  assume "int_of_s16 w = 0"
  then have "sint (int_of_s16 w) = 0"
    by simp
  then have "sint w = 0"
    by (simp add: sint_int_of_s16)
  then show "w = 0"
    by (simp add: signed_eq_0_iff)
next
  assume "w = 0"
  then show "int_of_s16 w = 0"
    by (simp add: int_of_s16_def)
qed

lemma scale_level_Inr_iff:
  "(\<exists>level. scale_level e = Inr level) \<longleftrightarrow>
     max_value e \<noteq> min_value e \<and>
     \<not> ((cur_value e - min_value e) * int_of_u16 (line_cnt e) = - 2147483648 \<and>
        max_value e - min_value e = - 1)"
  by (auto simp: scale_level_def Let_def)

lemma scale_level_at_min:
  assumes "cur_value e = min_value e" and "max_value e \<noteq> min_value e"
  shows "scale_level e = Inr 0"
  using assms by (simp add: scale_level_def Let_def c_div_def to_16_def)

lemma scale_level_val:
  assumes lt: "min_value e <s max_value e"
    and span: "sint (max_value e) - sint (min_value e) < 2147483648"
    and lo: "min_value e \<le>s cur_value e"
    and hi: "cur_value e \<le>s max_value e"
    and no_ov: "(sint (cur_value e) - sint (min_value e)) * uint (line_cnt e) < 2147483648"
    and fits: "((sint (cur_value e) - sint (min_value e)) * uint (line_cnt e))
                 div (sint (max_value e) - sint (min_value e)) < 32768"
  shows "\<exists>level. scale_level e = Inr level \<and>
           sint level = ((sint (cur_value e) - sint (min_value e)) * uint (line_cnt e))
                          div (sint (max_value e) - sint (min_value e))"
proof -
  let ?C = "sint (cur_value e) - sint (min_value e)"
  let ?D = "sint (max_value e) - sint (min_value e)"
  let ?n = "uint (line_cnt e)"
  have D: "0 < ?D"
    using lt by (simp add: word_sless_alt)
  have C: "0 \<le> ?C" "?C \<le> ?D"
    using lo hi by (simp_all add: word_sle_eq)
  have sD: "sint (max_value e - min_value e) = ?D"
    using D span by (simp add: sint_sub32)
  have sC: "sint (cur_value e - min_value e) = ?C"
    using C span by (simp add: sint_sub32)
  have ne: "max_value e - min_value e \<noteq> 0"
    using sD D by auto
  have no_trap: "max_value e - min_value e \<noteq> - 1"
    using sD D by auto
  have n0: "0 \<le> ?n"
    by simp
  have prod_nonneg: "0 \<le> ?C * ?n"
    using C(1) n0 by (rule mult_nonneg_nonneg)
  have sP: "sint ((cur_value e - min_value e) * int_of_u16 (line_cnt e)) = ?C * ?n"
    using no_ov prod_nonneg by (simp add: sint_mult32 sC sint_int_of_u16)
  have sQ: "sint (c_div ((cur_value e - min_value e) * int_of_u16 (line_cnt e))
                        (max_value e - min_value e)) = (?C * ?n) div ?D"
    using prod_nonneg D by (simp add: sint_c_div_nonneg sP sD)
  have q_ge: "0 \<le> (?C * ?n) div ?D"
    using prod_nonneg D by (simp add: pos_imp_zdiv_nonneg_iff)
  have "sint (to_16 (c_div ((cur_value e - min_value e) * int_of_u16 (line_cnt e))
                          (max_value e - min_value e))) = (?C * ?n) div ?D"
    using fits q_ge by (simp add: sint_to_16 sQ)
  then show ?thesis
    using ne no_trap by (simp add: scale_level_def Let_def)
qed

lemma beyond_level_iff:
  "int_of_s16 level \<le>s int_of_u16 i \<longleftrightarrow> sint level \<le> uint i"
  by (simp add: word_sle_eq sint_int_of_s16 sint_int_of_u16)

lemma mix_fraction_val:
  assumes "i < line_cnt e"
  shows "uint (to_u8 (c_div (255 * int_of_u16 i) (int_of_u16 (line_cnt e))))
           = (255 * uint i) div uint (line_cnt e)"
proof -
  let ?n = "uint (line_cnt e)"
  have i: "uint i < ?n" "0 \<le> uint i"
    using assms by (simp_all add: word_less_def)
  have nb: "?n < 65536"
    by (rule uint_u16_bound)
  have "sint (255 :: 32 word) * sint (int_of_u16 i) = 255 * uint i"
    by (simp add: sint_int_of_u16)
  moreover have "- 2147483648 \<le> 255 * uint i" "255 * uint i < 2147483648"
    using i nb by linarith+
  ultimately have p: "sint (255 * int_of_u16 i) = 255 * uint i"
    using sint_mult32 [of 255 "int_of_u16 i"] by simp
  have npos: "0 < ?n"
    using i by linarith
  have "0 \<le> sint (255 * int_of_u16 i)" "0 < sint (int_of_u16 (line_cnt e))"
    using npos by (simp_all add: p sint_int_of_u16)
  then have "sint (c_div (255 * int_of_u16 i) (int_of_u16 (line_cnt e)))
               = sint (255 * int_of_u16 i) div sint (int_of_u16 (line_cnt e))"
    by (rule sint_c_div_nonneg)
  then have q: "sint (c_div (255 * int_of_u16 i) (int_of_u16 (line_cnt e))) = (255 * uint i) div ?n"
    by (simp add: p sint_int_of_u16)
  have "255 * uint i < 255 * ?n"
    using i by simp
  then have "(255 * uint i) div ?n < 255"
    using npos by (intro div_less_int) simp_all
  moreover have "0 \<le> (255 * uint i) div ?n"
    using npos by (simp add: pos_imp_zdiv_nonneg_iff)
  ultimately show ?thesis
    by (simp add: uint_to_u8 q)
qed

lemma scale_label_counter_val:
  assumes "1 < label_cnt e"
    and "uint (line_cnt e) div (uint (label_cnt e) - 1) < 32768"
  shows "sint (scale_label_counter e) = uint (line_cnt e) div (uint (label_cnt e) - 1)"
proof -
  have L: "1 < uint (label_cnt e)" "uint (label_cnt e) < 65536"
    using assms(1) uint_u16_bound [of "label_cnt e"] by (simp_all add: word_less_def)
  then have d: "sint (int_of_u16 (label_cnt e) - 1) = uint (label_cnt e) - 1"
    by (simp add: sint_sub32 sint_int_of_u16)
  have q: "sint (c_div (int_of_u16 (line_cnt e)) (int_of_u16 (label_cnt e) - 1))
             = uint (line_cnt e) div (uint (label_cnt e) - 1)"
    using L by (simp add: sint_c_div_nonneg d sint_int_of_u16)
  have "0 \<le> uint (line_cnt e) div (uint (label_cnt e) - 1)"
    using L by (simp add: pos_imp_zdiv_nonneg_iff)
  then show ?thesis
    using assms by (simp add: scale_label_counter_def sint_to_16 q)
qed

lemma minor_iff:
  assumes "0 < sint lc"
  shows "c_mod (int_of_u16 i) (int_of_s16 lc) \<noteq> 0 \<longleftrightarrow> uint i mod sint lc \<noteq> 0"
  using assms c_mod_eq_0_iff [of "int_of_u16 i" "int_of_s16 lc"]
  by (simp add: sint_int_of_u16 sint_int_of_s16)

lemma tick_scale_act_val:
  assumes n: "1 < line_cnt e"
    and span: "- 2147483648 \<le> sint (max_value e) - sint (min_value e)"
              "sint (max_value e) - sint (min_value e) < 2147483648"
    and no_ov: "- 2147483648 \<le> (sint (max_value e) - sint (min_value e)) * uint i"
               "(sint (max_value e) - sint (min_value e)) * uint i < 2147483648"
    and i: "i < line_cnt e"
  shows "sint (tick_scale_act e i)
           = ((sint (max_value e) - sint (min_value e)) * uint i) sdiv (uint (line_cnt e) - 1)
               + sint (min_value e)"
proof -
  let ?D = "sint (max_value e) - sint (min_value e)"
  let ?m = "uint (line_cnt e) - 1"
  have sD: "sint (max_value e - min_value e) = ?D"
    using span by (simp add: sint_sub32)
  have m: "sint (int_of_u16 (line_cnt e) - 1) = ?m" "0 < ?m"
    using sint_line_cnt_minus_1 [OF n] by simp_all
  have k: "0 \<le> uint i" "uint i \<le> ?m"
    using uint_less_of_word_less [OF i] by simp_all
  have sP: "sint ((max_value e - min_value e) * int_of_u16 i) = ?D * uint i"
    using no_ov sint_mult32 [of "max_value e - min_value e" "int_of_u16 i"]
    by (simp add: sD sint_int_of_u16)
  have "0 < sint (int_of_u16 (line_cnt e) - 1)"
    using m by simp
  then have sQ: "sint (c_div ((max_value e - min_value e) * int_of_u16 i)
                         (int_of_u16 (line_cnt e) - 1)) = (?D * uint i) sdiv ?m"
    using sint_c_div_pos [of "int_of_u16 (line_cnt e) - 1"
        "(max_value e - min_value e) * int_of_u16 i"]
    by (simp add: sP m)
  have "- 2147483648 \<le> (?D * uint i) sdiv ?m + sint (min_value e) \<and>
        (?D * uint i) sdiv ?m + sint (min_value e) < 2147483648"
  proof (cases "0 \<le> ?D")
    case True
    from sdiv_between(1) [OF m(2) k True]
    show ?thesis
      using sint_s32_bounds [of "min_value e"] sint_s32_bounds [of "max_value e"] by linarith
  next
    case False
    then have "?D \<le> 0"
      by simp
    from sdiv_between(2) [OF m(2) k this]
    show ?thesis
      using sint_s32_bounds [of "min_value e"] sint_s32_bounds [of "max_value e"] by linarith
  qed
  then show ?thesis
    by (simp add: tick_scale_act_def sint_add32 sQ)
qed

lemmas render_defs = lv_linearscale_draw_scale_def scale_hor_def scale_level_def
  lv_obj_get_width_def lv_obj_get_height_def lv_area_get_width_def lv_area_get_height_def
  to_16_def to_u8_def int_of_s16_def int_of_u16_def c_div_def c_mod_def scale_label_counter_def
  draw_tick_def tick_minor_def tick_width_def tick_points_def tick_offset_def
  tick_line_dsc_def tick_scale_act_def tick_scale_txt_def tick_label_cord_def
  scale_indic_area_def lv_color_mix_def mix_channel_def
  LV_LINEARSCALE_ALIGN_LEFT_def LV_LINEARSCALE_ALIGN_TOP_def
  signed_divide_int_def signed_modulo_int_def word_sle_eq word_sless_alt Let_def

lemmas example_defs = fresh_scale_def default_area_def plain_host_def
  lv_linearscale_set_scale_def lv_linearscale_set_value_def lv_linearscale_set_range_def
  lv_obj_invalidate_def

lemmas geometry_defs = scale_hor_def lv_obj_get_width_def lv_obj_get_height_def
  lv_area_get_width_def lv_area_get_height_def scale_indic_area_def scale_label_counter_def
  to_16_def int_of_s16_def int_of_u16_def c_div_def signed_divide_int_def
  word_sle_eq word_sless_alt Let_def

lemma tick_points_hor:
  "pt_x (fst (tick_points e a True tw i))
     = to_16 (int_of_s16 (x1 a) + tick_offset e (int_of_s16 (x2 a) - int_of_s16 (x1 a)) i)"
  "pt_x (snd (tick_points e a True tw i)) = pt_x (fst (tick_points e a True tw i))"
  "pt_y (snd (tick_points e a True tw i)) - pt_y (fst (tick_points e a True tw i)) = tw"
  by (simp_all add: tick_points_def Let_def)

lemma tick_points_ver:
  "pt_y (fst (tick_points e a False tw i))
     = to_16 (int_of_s16 (y2 a) - tick_offset e (int_of_s16 (y2 a) - int_of_s16 (y1 a)) i)"
  "pt_y (snd (tick_points e a False tw i)) = pt_y (fst (tick_points e a False tw i))"
  "pt_x (snd (tick_points e a False tw i)) - pt_x (fst (tick_points e a False tw i)) = tw"
  by (simp_all add: tick_points_def Let_def)

lemma hor_position:
  assumes n: "1 < line_cnt e" and i: "i < line_cnt e"
    and no_ov: "- 2147483648 \<le> 100 * (sint (x2 a) - sint (x1 a)) * uint i"
               "100 * (sint (x2 a) - sint (x1 a)) * uint i < 2147483648"
  shows "sint (pt_x (fst (tick_points e a True tw i))) - sint (x1 a)
           = ((sint (x2 a) - sint (x1 a)) * uint i) sdiv (uint (line_cnt e) - 1)"
proof -
  let ?ext = "int_of_s16 (x2 a) - int_of_s16 (x1 a)"
  have se: "sint ?ext = sint (x2 a) - sint (x1 a)"
    by (rule sint_extent)
  have b: "- 65536 < sint ?ext" "sint ?ext < 65536"
    using sint_s16_bounds [of "x1 a"] sint_s16_bounds [of "x2 a"] by (simp_all add: se)
  have ov: "- 2147483648 \<le> 100 * sint ?ext * uint i" "100 * sint ?ext * uint i < 2147483648"
    using no_ov by (simp_all add: se)
  have val: "sint (tick_offset e ?ext i) = (sint ?ext * uint i) sdiv (uint (line_cnt e) - 1)"
    by (rule tick_offset_val [OF n b ov])
  have rng: "sint (x1 a) + sint (tick_offset e ?ext i) < 32768 \<and>
             - 32768 \<le> sint (x1 a) + sint (tick_offset e ?ext i)"
  proof (cases "0 \<le> sint ?ext")
    case True
    from tick_offset_le(1) [OF n i b ov True] show ?thesis
      using se sint_s16_bounds [of "x1 a"] sint_s16_bounds [of "x2 a"] by linarith
  next
    case False
    then have "sint ?ext \<le> 0"
      by simp
    from tick_offset_le(2) [OF n i b ov this] show ?thesis
      using se sint_s16_bounds [of "x1 a"] sint_s16_bounds [of "x2 a"] by linarith
  qed
  have sum: "sint (int_of_s16 (x1 a) + tick_offset e ?ext i)
               = sint (x1 a) + sint (tick_offset e ?ext i)"
    using rng by (simp add: sint_add32 sint_int_of_s16)
  have "sint (to_16 (int_of_s16 (x1 a) + tick_offset e ?ext i))
          = sint (x1 a) + sint (tick_offset e ?ext i)"
    using rng by (simp add: sint_to_16 sum)
  then show ?thesis
    by (simp add: tick_points_hor val se)
qed

lemma ver_position:
  assumes n: "1 < line_cnt e" and i: "i < line_cnt e"
    and no_ov: "- 2147483648 \<le> 100 * (sint (y2 a) - sint (y1 a)) * uint i"
               "100 * (sint (y2 a) - sint (y1 a)) * uint i < 2147483648"
  shows "sint (y2 a) - sint (pt_y (fst (tick_points e a False tw i)))
           = ((sint (y2 a) - sint (y1 a)) * uint i) sdiv (uint (line_cnt e) - 1)"
proof -
  let ?ext = "int_of_s16 (y2 a) - int_of_s16 (y1 a)"
  have se: "sint ?ext = sint (y2 a) - sint (y1 a)"
    by (rule sint_extent)
  have b: "- 65536 < sint ?ext" "sint ?ext < 65536"
    using sint_s16_bounds [of "y1 a"] sint_s16_bounds [of "y2 a"] by (simp_all add: se)
  have ov: "- 2147483648 \<le> 100 * sint ?ext * uint i" "100 * sint ?ext * uint i < 2147483648"
    using no_ov by (simp_all add: se)
  have val: "sint (tick_offset e ?ext i) = (sint ?ext * uint i) sdiv (uint (line_cnt e) - 1)"
    by (rule tick_offset_val [OF n b ov])
  have rng: "sint (y2 a) - sint (tick_offset e ?ext i) < 32768 \<and>
             - 32768 \<le> sint (y2 a) - sint (tick_offset e ?ext i)"
  proof (cases "0 \<le> sint ?ext")
    case True
    from tick_offset_le(1) [OF n i b ov True] show ?thesis
      using se sint_s16_bounds [of "y1 a"] sint_s16_bounds [of "y2 a"] by linarith
  next
    case False
    then have "sint ?ext \<le> 0"
      by simp
    from tick_offset_le(2) [OF n i b ov this] show ?thesis
      using se sint_s16_bounds [of "y1 a"] sint_s16_bounds [of "y2 a"] by linarith
  qed
  have diff: "sint (int_of_s16 (y2 a) - tick_offset e ?ext i)
               = sint (y2 a) - sint (tick_offset e ?ext i)"
    using rng by (simp add: sint_sub32 sint_int_of_s16)
  have "sint (to_16 (int_of_s16 (y2 a) - tick_offset e ?ext i))
          = sint (y2 a) - sint (tick_offset e ?ext i)"
    using rng by (simp add: sint_to_16 diff)
  then show ?thesis
    by (simp add: tick_points_ver val se)
qed

text \<open>
  Whenever no division faults, the pass returns its ticks, one for each index, each of them
  the result of the loop body at that index.
\<close>

lemma draw_scale_ticks:
  assumes "scale_level (ext_attr lscale) = Inr level"
    and "1 < line_cnt (ext_attr lscale)"
    and "scale_label_counter (ext_attr lscale) \<noteq> 0"
  obtains ts where "lv_linearscale_draw_scale host lscale = Inr ts"
    and "length ts = unat (line_cnt (ext_attr lscale))"
    and "\<And>i. i < line_cnt (ext_attr lscale) \<Longrightarrow>
           \<exists>d d'. draw_tick host lscale (scale_hor lscale) level
                     (scale_label_counter (ext_attr lscale)) d i = Inr (ts ! unat i, d')"
proof -
  have lc: "int_of_s16 (scale_label_counter (ext_attr lscale)) \<noteq> 0"
    using assms(3) by (simp add: int_of_s16_eq_0_iff)
  from draw_scale_ok [OF assms(2) lc assms(1), of host]
  obtain ts where "lv_linearscale_draw_scale host lscale = Inr ts"
    and "length ts = unat (line_cnt (ext_attr lscale))"
    and "\<forall>i. i < line_cnt (ext_attr lscale) \<longrightarrow>
           (\<exists>d d'. draw_tick host lscale (scale_hor lscale) level
                     (scale_label_counter (ext_attr lscale)) d i = Inr (ts ! unat i, d'))"
    by blast
  with that show thesis
    by blast
qed

lemma label_counter_zero: "label_cnt e \<le> 1 \<Longrightarrow> scale_label_counter e = 0"
  by (simp add: scale_label_counter_def not_less [symmetric])

subsection \<open>Orientation\<close>

text \<open>
  C3, as stated, fails. An object of 100 by 90 pixels with a left padding of 20 has an
  indicator area of 80 by 90 pixels, narrower than high, and its ticks still run from left
  to right: each tick line keeps one x coordinate (20, 59, 99) and ends on the bottom edge.
  And a square object is horizontal before and after its width and height are swapped.
\<close>

theorem orientation_ignores_padding:
  "sint (lv_area_get_width (scale_indic_area padded_host wide_scale)) = 80 \<and>
   sint (lv_area_get_height (scale_indic_area padded_host wide_scale)) = 90 \<and>
   length (drawn_ticks (lv_linearscale_draw_scale padded_host wide_scale)) = 3 \<and>
   sint (pt_x (line_p1 (drawn_ticks (lv_linearscale_draw_scale padded_host wide_scale) ! 0))) = 20 \<and>
   sint (pt_x (line_p2 (drawn_ticks (lv_linearscale_draw_scale padded_host wide_scale) ! 0))) = 20 \<and>
   sint (pt_x (line_p1 (drawn_ticks (lv_linearscale_draw_scale padded_host wide_scale) ! 1))) = 59 \<and>
   sint (pt_x (line_p2 (drawn_ticks (lv_linearscale_draw_scale padded_host wide_scale) ! 1))) = 59 \<and>
   sint (pt_x (line_p1 (drawn_ticks (lv_linearscale_draw_scale padded_host wide_scale) ! 2))) = 99 \<and>
   sint (pt_x (line_p2 (drawn_ticks (lv_linearscale_draw_scale padded_host wide_scale) ! 2))) = 99 \<and>
   sint (pt_y (line_p2 (drawn_ticks (lv_linearscale_draw_scale padded_host wide_scale) ! 0))) = 89 \<and>
   sint (pt_y (line_p2 (drawn_ticks (lv_linearscale_draw_scale padded_host wide_scale) ! 2))) = 89 \<and>
   lv_obj_get_width square_scale = lv_obj_get_height square_scale \<and>
   scale_hor square_scale"
  by (simp add: drawn_ticks_def wide_scale_def square_scale_def padded_host_def plain_host_def
      fresh_scale_def lv_linearscale_set_scale_def lv_obj_invalidate_def render_defs)

text \<open>
  C3, amended: in the render pass the orientation is horizontal if and only if the width of
  the object (its coordinates, before any padding is subtracted) is greater than or equal
  to its height. In a pass whose level division faults neither by a zero divisor nor by
  overflow: when the orientation is horizontal each tick line keeps one x coordinate, the
  left edge of the indicator area (the object's left edge plus the left padding) plus the
  offset of the tick along the distance to the right edge (the object's right edge minus
  the right padding), and tick 0 lies on that left edge; otherwise each tick line keeps one
  y coordinate, the bottom edge of the indicator area (the object's bottom edge minus the
  bottom padding) minus the offset along the distance from the top edge (the object's top
  edge plus the top padding), and tick 0 lies on that bottom edge. Swapping the width and
  the height of an object whose width and height differ flips the orientation.
\<close>

theorem orientation_from_object_size:
  "(scale_level (ext_attr lscale) = Inr level \<and>
    1 < line_cnt (ext_attr lscale) \<and>
    scale_label_counter (ext_attr lscale) \<noteq> 0 \<and>
    i < line_cnt (ext_attr lscale) \<longrightarrow>
      (\<exists>ts. lv_linearscale_draw_scale host lscale = Inr ts \<and>
         (sint (lv_obj_get_height lscale) \<le> sint (lv_obj_get_width lscale) \<longrightarrow>
            pt_x (line_p2 (ts ! unat i)) = pt_x (line_p1 (ts ! unat i)) \<and>
            pt_x (line_p1 (ts ! unat i))
              = to_16 (int_of_s16 (x1 (coords lscale) + style_pad_left host)
                        + tick_offset (ext_attr lscale)
                            (int_of_s16 (x2 (coords lscale) - style_pad_right host)
                               - int_of_s16 (x1 (coords lscale) + style_pad_left host)) i) \<and>
            pt_x (line_p1 (ts ! 0)) = x1 (coords lscale) + style_pad_left host) \<and>
         (sint (lv_obj_get_width lscale) < sint (lv_obj_get_height lscale) \<longrightarrow>
            pt_y (line_p2 (ts ! unat i)) = pt_y (line_p1 (ts ! unat i)) \<and>
            pt_y (line_p1 (ts ! unat i))
              = to_16 (int_of_s16 (y2 (coords lscale) - style_pad_bottom host)
                        - tick_offset (ext_attr lscale)
                            (int_of_s16 (y2 (coords lscale) - style_pad_bottom host)
                               - int_of_s16 (y1 (coords lscale) + style_pad_top host)) i) \<and>
            pt_y (line_p1 (ts ! 0)) = y2 (coords lscale) - style_pad_bottom host))) \<and>
   scale_hor lscale = (sint (lv_obj_get_height lscale) \<le> sint (lv_obj_get_width lscale)) \<and>
   (lv_obj_get_width lscale' = lv_obj_get_height lscale \<and>
    lv_obj_get_height lscale' = lv_obj_get_width lscale \<and>
    lv_obj_get_width lscale \<noteq> lv_obj_get_height lscale \<longrightarrow>
      scale_hor lscale' = (\<not> scale_hor lscale))"
proof (intro conjI impI)
  assume a: "scale_level (ext_attr lscale) = Inr level \<and>
    1 < line_cnt (ext_attr lscale) \<and>
    scale_label_counter (ext_attr lscale) \<noteq> 0 \<and>
    i < line_cnt (ext_attr lscale)"
  then obtain ts where ts: "lv_linearscale_draw_scale host lscale = Inr ts"
    and tick: "\<And>i. i < line_cnt (ext_attr lscale) \<Longrightarrow>
           \<exists>d d'. draw_tick host lscale (scale_hor lscale) level
                     (scale_label_counter (ext_attr lscale)) d i = Inr (ts ! unat i, d')"
    using draw_scale_ticks [of lscale level host] by blast
  from a tick obtain d d' where
    t: "draw_tick host lscale (scale_hor lscale) level
          (scale_label_counter (ext_attr lscale)) d i = Inr (ts ! unat i, d')"
    by blast
  from a have "0 < line_cnt (ext_attr lscale)"
    by (simp add: word_less_nat_alt)
  with tick [of 0] obtain d0 d0' where
    t0: "draw_tick host lscale (scale_hor lscale) level
          (scale_label_counter (ext_attr lscale)) d0 0 = Inr (ts ! 0, d0')"
    by auto
  have z: "to_16 (int_of_s16 w) = w" for w
    by (simp add: to_16_def int_of_s16_def scast_up_scast_id is_up)
  have hor_iff: "scale_hor lscale
                   \<longleftrightarrow> sint (lv_obj_get_height lscale) \<le> sint (lv_obj_get_width lscale)"
    by (simp add: scale_hor_def word_sle_eq)
  have edges: "x1 (scale_indic_area host lscale) = x1 (coords lscale) + style_pad_left host"
    "x2 (scale_indic_area host lscale) = x2 (coords lscale) - style_pad_right host"
    "y1 (scale_indic_area host lscale) = y1 (coords lscale) + style_pad_top host"
    "y2 (scale_indic_area host lscale) = y2 (coords lscale) - style_pad_bottom host"
    by (simp_all add: scale_indic_area_def)
  show "\<exists>ts. lv_linearscale_draw_scale host lscale = Inr ts \<and>
         (sint (lv_obj_get_height lscale) \<le> sint (lv_obj_get_width lscale) \<longrightarrow>
            pt_x (line_p2 (ts ! unat i)) = pt_x (line_p1 (ts ! unat i)) \<and>
            pt_x (line_p1 (ts ! unat i))
              = to_16 (int_of_s16 (x1 (coords lscale) + style_pad_left host)
                        + tick_offset (ext_attr lscale)
                            (int_of_s16 (x2 (coords lscale) - style_pad_right host)
                               - int_of_s16 (x1 (coords lscale) + style_pad_left host)) i) \<and>
            pt_x (line_p1 (ts ! 0)) = x1 (coords lscale) + style_pad_left host) \<and>
         (sint (lv_obj_get_width lscale) < sint (lv_obj_get_height lscale) \<longrightarrow>
            pt_y (line_p2 (ts ! unat i)) = pt_y (line_p1 (ts ! unat i)) \<and>
            pt_y (line_p1 (ts ! unat i))
              = to_16 (int_of_s16 (y2 (coords lscale) - style_pad_bottom host)
                        - tick_offset (ext_attr lscale)
                            (int_of_s16 (y2 (coords lscale) - style_pad_bottom host)
                               - int_of_s16 (y1 (coords lscale) + style_pad_top host)) i) \<and>
            pt_y (line_p1 (ts ! 0)) = y2 (coords lscale) - style_pad_bottom host)"
    using ts draw_tick_fields(3,4) [OF t] draw_tick_fields(3) [OF t0] hor_iff
    by (auto simp: tick_points_hor tick_points_ver tick_offset_0 z edges)
next
  show "scale_hor lscale = (sint (lv_obj_get_height lscale) \<le> sint (lv_obj_get_width lscale))"
    by (simp add: scale_hor_def word_sle_eq)
next
  assume "lv_obj_get_width lscale' = lv_obj_get_height lscale \<and>
    lv_obj_get_height lscale' = lv_obj_get_width lscale \<and>
    lv_obj_get_width lscale \<noteq> lv_obj_get_height lscale"
  then show "scale_hor lscale' = (\<not> scale_hor lscale)"
    by (auto simp: scale_hor_def word_sle_eq signed_word_eqI)
qed

text \<open>
  The amended C3 on an object of 100 by 90 pixels and on the swapped one, both with the
  paddings 20, 10, 5 and 7 (left, right, top, bottom): the horizontal ticks start at
  x = 0 + 20, the vertical ones at y = 99 - 7.
\<close>

theorem orientation_from_object_size_witness:
  "lv_obj_get_width tall_scale = lv_obj_get_height wide_scale \<and>
   lv_obj_get_height tall_scale = lv_obj_get_width wide_scale \<and>
   sint (lv_obj_get_width wide_scale) = 100 \<and> sint (lv_obj_get_height wide_scale) = 90 \<and>
   scale_level (ext_attr wide_scale) = Inr 0 \<and> scale_level (ext_attr tall_scale) = Inr 0 \<and>
   scale_hor wide_scale \<and> \<not> scale_hor tall_scale \<and>
   (\<exists>ts. lv_linearscale_draw_scale framed_host wide_scale = Inr ts \<and>
      pt_x (line_p2 (ts ! 1)) = pt_x (line_p1 (ts ! 1)) \<and>
      pt_x (line_p1 (ts ! 1)) = 54 \<and>
      pt_x (line_p1 (ts ! 0)) = 20) \<and>
   (\<exists>ts. lv_linearscale_draw_scale framed_host tall_scale = Inr ts \<and>
      pt_y (line_p2 (ts ! 1)) = pt_y (line_p1 (ts ! 1)) \<and>
      pt_y (line_p1 (ts ! 1)) = 49 \<and>
      pt_y (line_p1 (ts ! 0)) = 92)"
  using orientation_from_object_size [of wide_scale 0 1 framed_host tall_scale] orientation_from_object_size [of tall_scale 0 1 framed_host wide_scale]
  by (simp add: wide_scale_def tall_scale_def framed_host_def example_defs geometry_defs
      scale_level_def tick_offset_def signed_divide_int_def)

subsection \<open>Tick positions\<close>

text \<open>
  C4, as stated, fails. On an indicator area that spans x = 0 to x = 10 (eleven pixel
  columns) with four ticks, the ticks lie at the offsets 0, 3, 6 and 10; for tick 2 the spec's
  formula gives \<open>round(20 / 3) = 7\<close>, and \<open>round(22 / 3) = 7\<close> if the length is taken as 11.
\<close>

theorem tick_offset_not_rounded:
  "length (drawn_ticks (lv_linearscale_draw_scale plain_host four_tick_scale)) = 4 \<and>
   sint (pt_x (line_p1 (drawn_ticks (lv_linearscale_draw_scale plain_host four_tick_scale) ! 2)))
     - sint (x1 (scale_indic_area plain_host four_tick_scale)) = 6 \<and>
   sint (x2 (scale_indic_area plain_host four_tick_scale))
     - sint (x1 (scale_indic_area plain_host four_tick_scale)) = 10 \<and>
   sint (lv_area_get_width (scale_indic_area plain_host four_tick_scale)) = 11 \<and>
   spec_tick_offset 10 2 4 = 7 \<and> spec_tick_offset 11 2 4 = 7"
  by (simp add: drawn_ticks_def four_tick_scale_def plain_host_def fresh_scale_def
      lv_linearscale_set_scale_def lv_obj_invalidate_def render_defs
      spec_tick_offset_def spec_round_div_def round_def)

text \<open>
  C4, amended: for every tick index \<open>i\<close> below \<open>lineCount\<close>, with \<open>lineCount > 1\<close>, in a pass
  whose level division faults neither by a zero divisor nor by overflow, the offset of the
  tick from the start edge of the indicator area is the quotient
  \<open>(length * i) / (lineCount - 1)\<close> truncated towards zero (\<open>sdiv\<close>), not rounded to nearest,
  provided \<open>100 * length * i\<close> is a 32-bit \<open>int\<close>. When horizontal the start edge is the left
  edge (the object's left edge plus the left padding) and \<open>length\<close> the right edge (the
  object's right edge minus the right padding) minus the left edge; when vertical the start
  edge is the bottom edge (the object's bottom edge minus the bottom padding) and \<open>length\<close>
  the bottom edge minus the top edge (the object's top edge plus the top padding). \<open>length\<close>
  may be negative, when the paddings exceed the object.
\<close>

theorem tick_offset_truncated:
  "scale_level (ext_attr lscale) = Inr level \<and>
   1 < line_cnt (ext_attr lscale) \<and>
   scale_label_counter (ext_attr lscale) \<noteq> 0 \<and>
   i < line_cnt (ext_attr lscale) \<longrightarrow>
     (\<exists>ts. lv_linearscale_draw_scale host lscale = Inr ts \<and>
        length ts = unat (line_cnt (ext_attr lscale)) \<and>
        (scale_hor lscale \<and>
         - 2147483648 \<le> 100 * (sint (x2 (coords lscale) - style_pad_right host)
                                   - sint (x1 (coords lscale) + style_pad_left host)) * uint i \<and>
         100 * (sint (x2 (coords lscale) - style_pad_right host)
                  - sint (x1 (coords lscale) + style_pad_left host)) * uint i < 2147483648 \<longrightarrow>
           sint (pt_x (line_p1 (ts ! unat i))) - sint (x1 (coords lscale) + style_pad_left host)
             = ((sint (x2 (coords lscale) - style_pad_right host)
                  - sint (x1 (coords lscale) + style_pad_left host)) * uint i)
                 sdiv (uint (line_cnt (ext_attr lscale)) - 1)) \<and>
        (\<not> scale_hor lscale \<and>
         - 2147483648 \<le> 100 * (sint (y2 (coords lscale) - style_pad_bottom host)
                                   - sint (y1 (coords lscale) + style_pad_top host)) * uint i \<and>
         100 * (sint (y2 (coords lscale) - style_pad_bottom host)
                  - sint (y1 (coords lscale) + style_pad_top host)) * uint i < 2147483648 \<longrightarrow>
           sint (y2 (coords lscale) - style_pad_bottom host) - sint (pt_y (line_p1 (ts ! unat i)))
             = ((sint (y2 (coords lscale) - style_pad_bottom host)
                  - sint (y1 (coords lscale) + style_pad_top host)) * uint i)
                 sdiv (uint (line_cnt (ext_attr lscale)) - 1)))"
proof (intro impI)
  assume a: "scale_level (ext_attr lscale) = Inr level \<and>
   1 < line_cnt (ext_attr lscale) \<and>
   scale_label_counter (ext_attr lscale) \<noteq> 0 \<and>
   i < line_cnt (ext_attr lscale)"
  then obtain ts where ts: "lv_linearscale_draw_scale host lscale = Inr ts"
    and len: "length ts = unat (line_cnt (ext_attr lscale))"
    and tick: "\<And>i. i < line_cnt (ext_attr lscale) \<Longrightarrow>
           \<exists>d d'. draw_tick host lscale (scale_hor lscale) level
                     (scale_label_counter (ext_attr lscale)) d i = Inr (ts ! unat i, d')"
    using draw_scale_ticks [of lscale level host] by blast
  from a tick obtain d d' where
    t: "draw_tick host lscale (scale_hor lscale) level
          (scale_label_counter (ext_attr lscale)) d i = Inr (ts ! unat i, d')"
    by blast
  note p1 = draw_tick_fields(3) [OF t]
  from a have n: "1 < line_cnt (ext_attr lscale)" and i: "i < line_cnt (ext_attr lscale)"
    by simp_all
  have edges: "x1 (scale_indic_area host lscale) = x1 (coords lscale) + style_pad_left host"
    "x2 (scale_indic_area host lscale) = x2 (coords lscale) - style_pad_right host"
    "y1 (scale_indic_area host lscale) = y1 (coords lscale) + style_pad_top host"
    "y2 (scale_indic_area host lscale) = y2 (coords lscale) - style_pad_bottom host"
    by (simp_all add: scale_indic_area_def)
  note hp = hor_position [OF n i, of "scale_indic_area host lscale", unfolded edges]
  note vp = ver_position [OF n i, of "scale_indic_area host lscale", unfolded edges]
  show "\<exists>ts. lv_linearscale_draw_scale host lscale = Inr ts \<and>
        length ts = unat (line_cnt (ext_attr lscale)) \<and>
        (scale_hor lscale \<and>
         - 2147483648 \<le> 100 * (sint (x2 (coords lscale) - style_pad_right host)
                                   - sint (x1 (coords lscale) + style_pad_left host)) * uint i \<and>
         100 * (sint (x2 (coords lscale) - style_pad_right host)
                  - sint (x1 (coords lscale) + style_pad_left host)) * uint i < 2147483648 \<longrightarrow>
           sint (pt_x (line_p1 (ts ! unat i))) - sint (x1 (coords lscale) + style_pad_left host)
             = ((sint (x2 (coords lscale) - style_pad_right host)
                  - sint (x1 (coords lscale) + style_pad_left host)) * uint i)
                 sdiv (uint (line_cnt (ext_attr lscale)) - 1)) \<and>
        (\<not> scale_hor lscale \<and>
         - 2147483648 \<le> 100 * (sint (y2 (coords lscale) - style_pad_bottom host)
                                   - sint (y1 (coords lscale) + style_pad_top host)) * uint i \<and>
         100 * (sint (y2 (coords lscale) - style_pad_bottom host)
                  - sint (y1 (coords lscale) + style_pad_top host)) * uint i < 2147483648 \<longrightarrow>
           sint (y2 (coords lscale) - style_pad_bottom host) - sint (pt_y (line_p1 (ts ! unat i)))
             = ((sint (y2 (coords lscale) - style_pad_bottom host)
                  - sint (y1 (coords lscale) + style_pad_top host)) * uint i)
                 sdiv (uint (line_cnt (ext_attr lscale)) - 1))"
    using ts len p1 hp vp by (auto simp: edges)
qed

text \<open>
  The amended C4 with the paddings 20, 10, 5 and 7 (left, right, top, bottom): on the object
  of 100 by 90 pixels the indicator area runs from x = 20 to x = 89 and tick 1 of three lies
  at the offset \<open>69 / 2 = 34\<close>; on the object of 90 by 100 pixels it runs from y = 5 to
  y = 92 and tick 1 lies \<open>87 / 2 = 43\<close> above the bottom edge; on the object of 11 by 5
  pixels it runs from x = 20 back to x = 0, the length is -20 and tick 2 of four lies at
  the offset \<open>-40 / 3 = -13\<close>, at x = 7.
\<close>

theorem tick_offset_truncated_witness:
  "scale_hor wide_scale \<and> \<not> scale_hor tall_scale \<and> scale_hor four_tick_scale \<and>
   scale_level (ext_attr four_tick_scale) = Inr 0 \<and>
   scale_label_counter (ext_attr four_tick_scale) = 4 \<and>
   (\<exists>ts. lv_linearscale_draw_scale framed_host wide_scale = Inr ts \<and> length ts = 3 \<and>
      sint (pt_x (line_p1 (ts ! 1))) - 20 = 34) \<and>
   (\<exists>ts. lv_linearscale_draw_scale framed_host tall_scale = Inr ts \<and> length ts = 3 \<and>
      92 - sint (pt_y (line_p1 (ts ! 1))) = 43) \<and>
   (\<exists>ts. lv_linearscale_draw_scale framed_host four_tick_scale = Inr ts \<and> length ts = 4 \<and>
      sint (pt_x (line_p1 (ts ! 2))) - 20 = - 13) \<and>
   (- 40 :: int) sdiv 3 = - 13 \<and> (- 40 :: int) div 3 = - 14"
  using tick_offset_truncated [of wide_scale 0 1 framed_host] tick_offset_truncated [of tall_scale 0 1 framed_host]
    tick_offset_truncated [of four_tick_scale 0 2 framed_host]
  by (simp add: wide_scale_def tall_scale_def four_tick_scale_def framed_host_def example_defs
      geometry_defs scale_level_def signed_divide_int_def)

subsection \<open>The zero major step\<close>

text \<open>
  C9: with \<open>labelCount \<le> 1\<close> and \<open>lineCount > 1\<close> the derived major step is zero, the minor
  detection of tick 0 takes the index modulo zero, and the render pass ends in a fault
  whatever the other fields are: in the division of the level, if the range is zero or the
  least \<open>int\<close> is divided by -1, and in the modulo by zero otherwise. So, unless the level
  division has faulted before, the pass, called directly or through the design callback,
  ends in the modulo by zero.
\<close>

theorem unlabelled_scale_modulo_fault:
  "label_cnt (ext_attr lscale) \<le> 1 \<and> 1 < line_cnt (ext_attr lscale) \<longrightarrow>
     scale_label_counter (ext_attr lscale) = 0 \<and>
     tick_minor (scale_label_counter (ext_attr lscale)) 0 = Inl Minor_modulo_by_zero \<and>
     lv_linearscale_draw_scale host lscale
       = Inl (if max_value (ext_attr lscale) - min_value (ext_attr lscale) = 0
              then Level_division_by_zero
              else if (cur_value (ext_attr lscale) - min_value (ext_attr lscale))
                        * int_of_u16 (line_cnt (ext_attr lscale)) = - 2147483648 \<and>
                      max_value (ext_attr lscale) - min_value (ext_attr lscale) = - 1
              then Level_division_overflow
              else Minor_modulo_by_zero) \<and>
     (max_value (ext_attr lscale) \<noteq> min_value (ext_attr lscale) \<and>
      \<not> ((cur_value (ext_attr lscale) - min_value (ext_attr lscale))
            * int_of_u16 (line_cnt (ext_attr lscale)) = - 2147483648 \<and>
         max_value (ext_attr lscale) - min_value (ext_attr lscale) = - 1) \<longrightarrow>
        lv_linearscale_draw_scale host lscale = Inl Minor_modulo_by_zero \<and>
        lv_linearscale_design host lscale LV_DESIGN_DRAW_MAIN = Inl Minor_modulo_by_zero)"
proof (intro impI)
  assume a: "label_cnt (ext_attr lscale) \<le> 1 \<and> 1 < line_cnt (ext_attr lscale)"
  then have lc: "scale_label_counter (ext_attr lscale) = 0"
    by (simp add: label_counter_zero)
  have z: "int_of_s16 (0 :: int16_t) = 0"
    by (simp add: int_of_s16_def)
  have tm: "tick_minor (scale_label_counter (ext_attr lscale)) 0 = Inl Minor_modulo_by_zero"
    by (simp add: lc tick_minor_def z)
  have pos: "0 < line_cnt (ext_attr lscale)"
    using a by (simp add: word_less_nat_alt)
  have loop: "draw_ticks host lscale (scale_hor lscale) level 0
                ((init_draw_line_dsc host)\<lparr>raw_end := True\<rparr>) 0 = Inl Minor_modulo_by_zero"
    for level
    using pos by (intro draw_ticks_fault) (simp_all add: z)
  have pass: "lv_linearscale_draw_scale host lscale = Inl Minor_modulo_by_zero"
    if "scale_level (ext_attr lscale) = Inr level" for level
    using a that loop [of level] by (simp add: lv_linearscale_draw_scale_def lc Let_def)
  have fault: "lv_linearscale_draw_scale host lscale
       = Inl (if max_value (ext_attr lscale) - min_value (ext_attr lscale) = 0
              then Level_division_by_zero
              else if (cur_value (ext_attr lscale) - min_value (ext_attr lscale))
                        * int_of_u16 (line_cnt (ext_attr lscale)) = - 2147483648 \<and>
                      max_value (ext_attr lscale) - min_value (ext_attr lscale) = - 1
              then Level_division_overflow
              else Minor_modulo_by_zero)"
  proof (cases "scale_level (ext_attr lscale)")
    case (Inl f)
    then have "lv_linearscale_draw_scale host lscale = Inl f"
      by (simp add: lv_linearscale_draw_scale_def Let_def)
    with Inl show ?thesis
      by (simp add: scale_level_def Let_def split: if_splits)
  next
    case (Inr level)
    then have "lv_linearscale_draw_scale host lscale = Inl Minor_modulo_by_zero"
      by (rule pass)
    with Inr show ?thesis
      by (simp add: scale_level_def Let_def split: if_splits)
  qed
  have "lv_linearscale_draw_scale host lscale = Inl Minor_modulo_by_zero"
    if "max_value (ext_attr lscale) \<noteq> min_value (ext_attr lscale) \<and>
      \<not> ((cur_value (ext_attr lscale) - min_value (ext_attr lscale))
            * int_of_u16 (line_cnt (ext_attr lscale)) = - 2147483648 \<and>
         max_value (ext_attr lscale) - min_value (ext_attr lscale) = - 1)"
  proof -
    from that obtain level where "scale_level (ext_attr lscale) = Inr level"
      using scale_level_Inr_iff [of "ext_attr lscale"] by blast
    then show ?thesis
      by (rule pass)
  qed
  then show "scale_label_counter (ext_attr lscale) = 0 \<and>
     tick_minor (scale_label_counter (ext_attr lscale)) 0 = Inl Minor_modulo_by_zero \<and>
     lv_linearscale_draw_scale host lscale
       = Inl (if max_value (ext_attr lscale) - min_value (ext_attr lscale) = 0
              then Level_division_by_zero
              else if (cur_value (ext_attr lscale) - min_value (ext_attr lscale))
                        * int_of_u16 (line_cnt (ext_attr lscale)) = - 2147483648 \<and>
                      max_value (ext_attr lscale) - min_value (ext_attr lscale) = - 1
              then Level_division_overflow
              else Minor_modulo_by_zero) \<and>
     (max_value (ext_attr lscale) \<noteq> min_value (ext_attr lscale) \<and>
      \<not> ((cur_value (ext_attr lscale) - min_value (ext_attr lscale))
            * int_of_u16 (line_cnt (ext_attr lscale)) = - 2147483648 \<and>
         max_value (ext_attr lscale) - min_value (ext_attr lscale) = - 1) \<longrightarrow>
        lv_linearscale_draw_scale host lscale = Inl Minor_modulo_by_zero \<and>
        lv_linearscale_design host lscale LV_DESIGN_DRAW_MAIN = Inl Minor_modulo_by_zero)"
    using lc tm fault by (simp add: lv_linearscale_design_def)
qed

text \<open>C9 on the default scale after \<open>lv_linearscale_set_scale(26, 1)\<close>.\<close>

theorem unlabelled_scale_modulo_fault_witness:
  "label_cnt (ext_attr unlabelled_scale) \<le> 1 \<and> 1 < line_cnt (ext_attr unlabelled_scale) \<and>
   max_value (ext_attr unlabelled_scale) \<noteq> min_value (ext_attr unlabelled_scale) \<and>
   max_value (ext_attr unlabelled_scale) - min_value (ext_attr unlabelled_scale) \<noteq> - 1 \<and>
   lv_linearscale_draw_scale plain_host unlabelled_scale = Inl Minor_modulo_by_zero \<and>
   lv_linearscale_design plain_host unlabelled_scale LV_DESIGN_DRAW_MAIN
     = Inl Minor_modulo_by_zero"
  using unlabelled_scale_modulo_fault [of unlabelled_scale plain_host]
  by (simp add: unlabelled_scale_def fresh_scale_def lv_linearscale_set_scale_def
      lv_obj_invalidate_def Let_def)

subsection \<open>Fill level and tick colours\<close>

lemma tick_colour_cases:
  assumes "draw_tick host lscale hor level lc d i = Inr (t, d')"
  shows "sint level \<le> uint i \<Longrightarrow>
           color (line_dsc t) = style_scale_end_color host \<and>
           width (line_dsc t) = style_scale_end_line_width host"
    and "uint i < sint level \<Longrightarrow>
           color (line_dsc t)
             = lv_color_mix (style_scale_grad_color host) (style_line_color host)
                 (to_u8 (c_div (255 * int_of_u16 i) (int_of_u16 (line_cnt (ext_attr lscale)))))"
  using draw_tick_fields(2) [OF assms]
  by (simp_all add: tick_line_dsc_def beyond_level_iff)

lemma spec_fill_level_div:
  "spec_fill_level cur mn mx n = ((cur - mn) * n) div (mx - mn)"
  unfolding spec_fill_level_def by (rule floor_divide_of_int_eq)

lemma set_value_stored_value_inv:
  "stored_value_inv (ext_attr s) \<Longrightarrow> stored_value_inv (ext_attr (lv_linearscale_set_value s v))"
  by (auto simp: stored_value_inv_def lv_linearscale_set_value_def lv_obj_invalidate_def Let_def
      word_sle_eq word_sless_alt)

lemma set_range_stored_value_inv:
  "stored_value_inv (ext_attr s)
     \<Longrightarrow> stored_value_inv (ext_attr (lv_linearscale_set_range s mn mx))"
  by (auto simp: stored_value_inv_def lv_linearscale_set_range_def lv_linearscale_set_value_def
      lv_obj_invalidate_def Let_def word_sle_eq word_sless_alt)

lemma call_setter_stored_value_inv:
  "stored_value_inv (ext_attr s) \<Longrightarrow> stored_value_inv (ext_attr (call_setter s c))"
proof (cases c)
  case (Set_value v)
  assume "stored_value_inv (ext_attr s)"
  then show ?thesis
    unfolding Set_value call_setter.simps by (rule set_value_stored_value_inv)
next
  case (Set_range mn mx)
  assume "stored_value_inv (ext_attr s)"
  then show ?thesis
    unfolding Set_range call_setter.simps by (rule set_range_stored_value_inv)
next
  case (Set_scale lines labels)
  assume "stored_value_inv (ext_attr s)"
  then show ?thesis
    by (simp add: Set_scale stored_value_inv_def lv_linearscale_set_scale_def
        lv_obj_invalidate_def Let_def)
next
  case (Set_alignment dir)
  assume "stored_value_inv (ext_attr s)"
  then show ?thesis
    by (simp add: Set_alignment stored_value_inv_def lv_linearscale_set_alignment_def
        lv_obj_invalidate_def Let_def)
next
  case (Set_formatter_cb cb)
  assume "stored_value_inv (ext_attr s)"
  then show ?thesis
    by (simp add: Set_formatter_cb stored_value_inv_def lv_linearscale_set_formatter_cb_def)
qed

lemma setters_stored_value_inv:
  "stored_value_inv (ext_attr s) \<Longrightarrow> stored_value_inv (ext_attr (foldl call_setter s cs))"
  by (induction cs arbitrary: s) (simp_all add: call_setter_stored_value_inv)

lemma fresh_stored_value_inv: "stored_value_inv (ext_attr (fresh_scale a))"
  by (simp add: stored_value_inv_def fresh_scale_def word_sle_eq word_sless_alt)

lemma fill_level_general:
  assumes ne: "max_value e \<noteq> min_value e"
    and inv: "stored_value_inv e"
    and span: "- 2147483648 \<le> sint (max_value e) - sint (min_value e)"
              "sint (max_value e) - sint (min_value e) < 2147483648"
    and no_ov: "(sint (cur_value e) - sint (min_value e)) * uint (line_cnt e) < 2147483648"
    and fits: "spec_fill_level (sint (cur_value e)) (sint (min_value e)) (sint (max_value e))
                 (uint (line_cnt e)) < 32768"
  shows "\<exists>level. scale_level e = Inr level \<and>
           sint level = spec_fill_level (sint (cur_value e)) (sint (min_value e))
                          (sint (max_value e)) (uint (line_cnt e))"
proof (cases "min_value e \<le>s max_value e")
  case True
  have "sint (max_value e) \<noteq> sint (min_value e)"
    using ne signed_word_eqI [of "max_value e" "min_value e"] by blast
  with True have lt: "min_value e <s max_value e"
    by (simp add: word_sle_eq word_sless_alt)
  from inv True have lo: "min_value e \<le>s cur_value e" and hi: "cur_value e \<le>s max_value e"
    by (simp_all add: stored_value_inv_def)
  from fits have "((sint (cur_value e) - sint (min_value e)) * uint (line_cnt e))
                    div (sint (max_value e) - sint (min_value e)) < 32768"
    by (simp add: spec_fill_level_div)
  from scale_level_val [OF lt span(2) lo hi no_ov this] show ?thesis
    by (simp add: spec_fill_level_div)
next
  case False
  then have "max_value e <s min_value e"
    by (simp add: word_sle_eq word_sless_alt)
  with inv have eq: "cur_value e = min_value e"
    by (simp add: stored_value_inv_def)
  from scale_level_at_min [OF eq ne] show ?thesis
    by (simp add: spec_fill_level_def eq)
qed

lemma tick_colours_general:
  assumes level: "scale_level (ext_attr lscale) = Inr level"
    and n: "1 < line_cnt (ext_attr lscale)"
    and lc: "scale_label_counter (ext_attr lscale) \<noteq> 0"
    and i: "i < line_cnt (ext_attr lscale)"
  shows "\<exists>ts. lv_linearscale_draw_scale host lscale = Inr ts \<and>
           (sint level \<le> uint i \<longrightarrow>
              color (line_dsc (ts ! unat i)) = style_scale_end_color host \<and>
              width (line_dsc (ts ! unat i)) = style_scale_end_line_width host) \<and>
           (uint i < sint level \<longrightarrow>
              color (line_dsc (ts ! unat i))
                = lv_color_mix (style_scale_grad_color host) (style_line_color host)
                    (to_u8 (c_div (255 * int_of_u16 i)
                                  (int_of_u16 (line_cnt (ext_attr lscale))))))"
proof -
  let ?e = "ext_attr lscale"
  obtain ts where ts: "lv_linearscale_draw_scale host lscale = Inr ts"
    and tick: "\<And>i. i < line_cnt ?e \<Longrightarrow>
           \<exists>d d'. draw_tick host lscale (scale_hor lscale) level
                     (scale_label_counter ?e) d i = Inr (ts ! unat i, d')"
    using draw_scale_ticks [OF level n lc, of host] by blast
  from tick [OF i] obtain d d' where
    t: "draw_tick host lscale (scale_hor lscale) level
          (scale_label_counter ?e) d i = Inr (ts ! unat i, d')"
    by blast
  show ?thesis
    using ts tick_colour_cases [OF t] by auto
qed

lemma many_ticks_fields:
  "line_cnt (ext_attr many_ticks_scale) = 40000"
  "label_cnt (ext_attr many_ticks_scale) = 2"
  "min_value (ext_attr many_ticks_scale) = 0"
  "max_value (ext_attr many_ticks_scale) = 100"
  "cur_value (ext_attr many_ticks_scale) = 100"
  by (simp_all add: many_ticks_scale_def example_defs Let_def word_sless_alt)

lemma many_ticks_level:
  "scale_level (ext_attr many_ticks_scale) = Inr (word_of_int (- 25536))"
  by (simp add: scale_level_def many_ticks_fields to_16_def int_of_u16_def c_div_def
      signed_divide_int_def Let_def)

lemma many_ticks_label_counter:
  "scale_label_counter (ext_attr many_ticks_scale) = word_of_int (- 25536)"
  by (simp add: scale_label_counter_def many_ticks_fields to_16_def int_of_u16_def c_div_def
      signed_divide_int_def)

lemma many_ticks_drawn:
  "\<exists>ts. lv_linearscale_draw_scale plain_host many_ticks_scale = Inr ts \<and>
     (\<forall>i. i < 40000 \<longrightarrow>
        (\<exists>d d'. draw_tick plain_host many_ticks_scale (scale_hor many_ticks_scale)
                  (word_of_int (- 25536)) (word_of_int (- 25536)) d i = Inr (ts ! unat i, d')))"
proof -
  have n: "1 < line_cnt (ext_attr many_ticks_scale)"
    by (simp add: many_ticks_fields)
  have lc: "scale_label_counter (ext_attr many_ticks_scale) \<noteq> 0"
    by (simp add: many_ticks_label_counter)
  obtain ts where ts: "lv_linearscale_draw_scale plain_host many_ticks_scale = Inr ts"
    and tick: "\<And>i. i < line_cnt (ext_attr many_ticks_scale) \<Longrightarrow>
           \<exists>d d'. draw_tick plain_host many_ticks_scale (scale_hor many_ticks_scale)
                     (word_of_int (- 25536))
                     (scale_label_counter (ext_attr many_ticks_scale)) d i
                     = Inr (ts ! unat i, d')"
    using draw_scale_ticks [OF many_ticks_level n lc, of plain_host] by blast
  from ts tick show ?thesis
    by (simp add: many_ticks_fields many_ticks_label_counter)
qed

text \<open>
  C5, as stated, fails. With the range 0 to 100, the value 100 and 40000 ticks the spec's
  level is 40000, so tick 0 would lie below it; the level is kept in an \<open>int16_t\<close>, where
  40000 reads as the negative number 40000 - 65536, and tick 0 is drawn with the end colour.
\<close>

theorem fill_level_wraps_at_16_bits:
  "min_value (ext_attr many_ticks_scale) \<noteq> max_value (ext_attr many_ticks_scale) \<and>
   spec_fill_level (sint (cur_value (ext_attr many_ticks_scale)))
     (sint (min_value (ext_attr many_ticks_scale))) (sint (max_value (ext_attr many_ticks_scale)))
     (uint (line_cnt (ext_attr many_ticks_scale))) = 40000 \<and>
   scale_level (ext_attr many_ticks_scale) = Inr (word_of_int (- 25536)) \<and>
   sint (word_of_int (- 25536) :: int16_t) = - 25536 \<and>
   color (line_dsc (drawn_ticks (lv_linearscale_draw_scale plain_host many_ticks_scale) ! 0))
     = style_scale_end_color plain_host \<and>
   style_scale_end_color plain_host
     \<noteq> lv_color_mix (style_scale_grad_color plain_host) (style_line_color plain_host) 0"
proof -
  obtain ts where ts: "lv_linearscale_draw_scale plain_host many_ticks_scale = Inr ts"
    and tick: "\<And>i. i < 40000 \<Longrightarrow>
           \<exists>d d'. draw_tick plain_host many_ticks_scale (scale_hor many_ticks_scale)
                     (word_of_int (- 25536)) (word_of_int (- 25536)) d i = Inr (ts ! unat i, d')"
    using many_ticks_drawn by blast
  from tick [of 0] obtain d d' where
    t: "draw_tick plain_host many_ticks_scale (scale_hor many_ticks_scale)
          (word_of_int (- 25536)) (word_of_int (- 25536)) d 0 = Inr (ts ! 0, d')"
    by auto
  have "color (line_dsc (ts ! 0)) = style_scale_end_color plain_host"
    using tick_colour_cases(1) [OF t] by simp
  then have "color (line_dsc (drawn_ticks (lv_linearscale_draw_scale plain_host many_ticks_scale)
                              ! 0)) = style_scale_end_color plain_host"
    by (simp add: ts drawn_ticks_def)
  then show ?thesis
    by (simp add: many_ticks_fields many_ticks_level spec_fill_level_def plain_host_def
        lv_color_mix_def mix_channel_def)
qed

text \<open>
  C5, amended: with \<open>minValue \<noteq> maxValue\<close>, a stored value as the setters leave it (within
  a range that is not inverted, at the minimum of an inverted one), \<open>maxValue - minValue\<close>
  and \<open>(currentValue - minValue) * lineCount\<close> within the 32-bit \<open>int\<close> and the quotient
  \<open>floor((currentValue - minValue) * lineCount / (maxValue - minValue))\<close> at most 32767, so
  that it fits the 16-bit variable, the fill level is that quotient; then, for
  \<open>lineCount > 1\<close> and a major step that is not zero, the pass returns, every tick at or
  beyond the level is drawn with the end colour and the end line width, and every tick below
  it with the blend of the gradient colour and the main colour. Every sequence of setter
  calls on a fresh scale leaves the stored value so. With the range 0 to 100, 26 ticks and the value 50 the
  level is 13, the ticks 0 to 12 are blended and the ticks 13 to 25 have the end colour.
\<close>

theorem fill_level_and_colours:
  "(max_value (ext_attr lscale) \<noteq> min_value (ext_attr lscale) \<and>
    stored_value_inv (ext_attr lscale) \<and>
    - 2147483648 \<le> sint (max_value (ext_attr lscale)) - sint (min_value (ext_attr lscale)) \<and>
    sint (max_value (ext_attr lscale)) - sint (min_value (ext_attr lscale)) < 2147483648 \<and>
    (sint (cur_value (ext_attr lscale)) - sint (min_value (ext_attr lscale)))
       * uint (line_cnt (ext_attr lscale)) < 2147483648 \<and>
    spec_fill_level (sint (cur_value (ext_attr lscale))) (sint (min_value (ext_attr lscale)))
      (sint (max_value (ext_attr lscale))) (uint (line_cnt (ext_attr lscale))) < 32768 \<longrightarrow>
      (\<exists>level. scale_level (ext_attr lscale) = Inr level \<and>
         sint level = spec_fill_level (sint (cur_value (ext_attr lscale)))
                        (sint (min_value (ext_attr lscale))) (sint (max_value (ext_attr lscale)))
                        (uint (line_cnt (ext_attr lscale))) \<and>
         (1 < line_cnt (ext_attr lscale) \<and>
          scale_label_counter (ext_attr lscale) \<noteq> 0 \<and>
          i < line_cnt (ext_attr lscale) \<longrightarrow>
            (\<exists>ts. lv_linearscale_draw_scale host lscale = Inr ts \<and>
               (sint level \<le> uint i \<longrightarrow>
                  color (line_dsc (ts ! unat i)) = style_scale_end_color host \<and>
                  width (line_dsc (ts ! unat i)) = style_scale_end_line_width host) \<and>
               (uint i < sint level \<longrightarrow>
                  color (line_dsc (ts ! unat i))
                    = lv_color_mix (style_scale_grad_color host) (style_line_color host)
                        (to_u8 (c_div (255 * int_of_u16 i)
                                      (int_of_u16 (line_cnt (ext_attr lscale)))))))))) \<and>
   stored_value_inv (ext_attr (foldl call_setter (fresh_scale area) calls)) \<and>
   (min_value (ext_attr lscale) = 0 \<and> max_value (ext_attr lscale) = 100 \<and>
    cur_value (ext_attr lscale) = 50 \<and> line_cnt (ext_attr lscale) = 26 \<and>
    scale_label_counter (ext_attr lscale) \<noteq> 0 \<and> i < 26 \<longrightarrow>
      (\<exists>ts. scale_level (ext_attr lscale) = Inr 13 \<and>
         lv_linearscale_draw_scale host lscale = Inr ts \<and>
         (13 \<le> uint i \<longrightarrow>
            color (line_dsc (ts ! unat i)) = style_scale_end_color host \<and>
            width (line_dsc (ts ! unat i)) = style_scale_end_line_width host) \<and>
         (uint i < 13 \<longrightarrow>
            color (line_dsc (ts ! unat i))
              = lv_color_mix (style_scale_grad_color host) (style_line_color host)
                  (to_u8 (c_div (255 * int_of_u16 i) 26)))))"
proof (intro conjI impI)
  assume a: "max_value (ext_attr lscale) \<noteq> min_value (ext_attr lscale) \<and>
    stored_value_inv (ext_attr lscale) \<and>
    - 2147483648 \<le> sint (max_value (ext_attr lscale)) - sint (min_value (ext_attr lscale)) \<and>
    sint (max_value (ext_attr lscale)) - sint (min_value (ext_attr lscale)) < 2147483648 \<and>
    (sint (cur_value (ext_attr lscale)) - sint (min_value (ext_attr lscale)))
       * uint (line_cnt (ext_attr lscale)) < 2147483648 \<and>
    spec_fill_level (sint (cur_value (ext_attr lscale))) (sint (min_value (ext_attr lscale)))
      (sint (max_value (ext_attr lscale))) (uint (line_cnt (ext_attr lscale))) < 32768"
  then have "\<exists>level. scale_level (ext_attr lscale) = Inr level \<and>
         sint level = spec_fill_level (sint (cur_value (ext_attr lscale)))
                        (sint (min_value (ext_attr lscale))) (sint (max_value (ext_attr lscale)))
                        (uint (line_cnt (ext_attr lscale)))"
    by (intro fill_level_general) simp_all
  then obtain level where level: "scale_level (ext_attr lscale) = Inr level"
    and val: "sint level = spec_fill_level (sint (cur_value (ext_attr lscale)))
                        (sint (min_value (ext_attr lscale))) (sint (max_value (ext_attr lscale)))
                        (uint (line_cnt (ext_attr lscale)))"
    by blast
  show "\<exists>level. scale_level (ext_attr lscale) = Inr level \<and>
         sint level = spec_fill_level (sint (cur_value (ext_attr lscale)))
                        (sint (min_value (ext_attr lscale))) (sint (max_value (ext_attr lscale)))
                        (uint (line_cnt (ext_attr lscale))) \<and>
         (1 < line_cnt (ext_attr lscale) \<and>
          scale_label_counter (ext_attr lscale) \<noteq> 0 \<and>
          i < line_cnt (ext_attr lscale) \<longrightarrow>
            (\<exists>ts. lv_linearscale_draw_scale host lscale = Inr ts \<and>
               (sint level \<le> uint i \<longrightarrow>
                  color (line_dsc (ts ! unat i)) = style_scale_end_color host \<and>
                  width (line_dsc (ts ! unat i)) = style_scale_end_line_width host) \<and>
               (uint i < sint level \<longrightarrow>
                  color (line_dsc (ts ! unat i))
                    = lv_color_mix (style_scale_grad_color host) (style_line_color host)
                        (to_u8 (c_div (255 * int_of_u16 i)
                                      (int_of_u16 (line_cnt (ext_attr lscale))))))))"
    using level val tick_colours_general [OF level, of i host] by blast
next
  show "stored_value_inv (ext_attr (foldl call_setter (fresh_scale area) calls))"
    by (rule setters_stored_value_inv) (rule fresh_stored_value_inv)
next
  assume a: "min_value (ext_attr lscale) = 0 \<and> max_value (ext_attr lscale) = 100 \<and>
    cur_value (ext_attr lscale) = 50 \<and> line_cnt (ext_attr lscale) = 26 \<and>
    scale_label_counter (ext_attr lscale) \<noteq> 0 \<and> i < 26"
  have "\<exists>level. scale_level (ext_attr lscale) = Inr level \<and>
         sint level = spec_fill_level (sint (cur_value (ext_attr lscale)))
                        (sint (min_value (ext_attr lscale))) (sint (max_value (ext_attr lscale)))
                        (uint (line_cnt (ext_attr lscale)))"
    using a by (intro fill_level_general)
      (simp_all add: stored_value_inv_def word_sless_alt word_sle_eq spec_fill_level_div)
  then obtain level where level: "scale_level (ext_attr lscale) = Inr level"
    and val: "sint level = spec_fill_level 50 0 100 26"
    using a by auto
  have s13: "sint level = 13"
    using val by (simp add: spec_fill_level_div)
  then have "sint level = sint (13 :: int16_t)"
    by simp
  then have l13: "level = 13"
    by (rule signed_word_eqI)
  have n: "1 < line_cnt (ext_attr lscale)" and lc: "scale_label_counter (ext_attr lscale) \<noteq> 0"
    and i: "i < line_cnt (ext_attr lscale)"
    using a by simp_all
  have "int_of_u16 26 = 26"
    by (simp add: int_of_u16_def)
  then show "\<exists>ts. scale_level (ext_attr lscale) = Inr 13 \<and>
         lv_linearscale_draw_scale host lscale = Inr ts \<and>
         (13 \<le> uint i \<longrightarrow>
            color (line_dsc (ts ! unat i)) = style_scale_end_color host \<and>
            width (line_dsc (ts ! unat i)) = style_scale_end_line_width host) \<and>
         (uint i < 13 \<longrightarrow>
            color (line_dsc (ts ! unat i))
              = lv_color_mix (style_scale_grad_color host) (style_line_color host)
                  (to_u8 (c_div (255 * int_of_u16 i) 26)))"
    using level tick_colours_general [OF level n lc i, of host] a by (simp add: l13)
qed

text \<open>
  The amended C5 on the default scale at value 50, at the ticks 12 and 13; on the scale of
  40000 ticks at value 50, whose level 20000 fits, at the ticks 19999 and 20000; and on the
  inverted range 10 to 5, where the stored value is the minimum and the level is 0.
\<close>

theorem fill_level_and_colours_witness:
  "cur_value (ext_attr half_scale) = 50 \<and> line_cnt (ext_attr half_scale) = 26 \<and>
   stored_value_inv (ext_attr half_scale) \<and>
   scale_label_counter (ext_attr half_scale) = 5 \<and>
   spec_fill_level 50 0 100 26 = 13 \<and>
   scale_level (ext_attr half_scale) = Inr 13 \<and>
   (\<exists>ts. lv_linearscale_draw_scale plain_host half_scale = Inr ts \<and>
      color (line_dsc (ts ! 12))
        = lv_color_mix (style_scale_grad_color plain_host) (style_line_color plain_host) 117) \<and>
   (\<exists>ts. lv_linearscale_draw_scale plain_host half_scale = Inr ts \<and>
      color (line_dsc (ts ! 13)) = style_scale_end_color plain_host \<and>
      width (line_dsc (ts ! 13)) = 1) \<and>
   line_cnt (ext_attr many_ticks_half_scale) = 40000 \<and>
   stored_value_inv (ext_attr many_ticks_half_scale) \<and>
   spec_fill_level 50 0 100 40000 = 20000 \<and>
   (\<exists>level. scale_level (ext_attr many_ticks_half_scale) = Inr level \<and> sint level = 20000) \<and>
   (\<exists>ts. lv_linearscale_draw_scale plain_host many_ticks_half_scale = Inr ts \<and>
      color (line_dsc (ts ! 19999))
        = lv_color_mix (style_scale_grad_color plain_host) (style_line_color plain_host) 127) \<and>
   (\<exists>ts. lv_linearscale_draw_scale plain_host many_ticks_half_scale = Inr ts \<and>
      color (line_dsc (ts ! 20000)) = style_scale_end_color plain_host \<and>
      width (line_dsc (ts ! 20000)) = 1) \<and>
   min_value (ext_attr inverted_scale) = 10 \<and> max_value (ext_attr inverted_scale) = 5 \<and>
   cur_value (ext_attr inverted_scale) = 10 \<and>
   stored_value_inv (ext_attr inverted_scale) \<and>
   spec_fill_level 10 10 5 26 = 0 \<and>
   scale_level (ext_attr inverted_scale) = Inr 0 \<and>
   (\<exists>ts. lv_linearscale_draw_scale plain_host inverted_scale = Inr ts \<and>
      color (line_dsc (ts ! 0)) = style_scale_end_color plain_host \<and>
      width (line_dsc (ts ! 0)) = 1)"
  using fill_level_and_colours [of half_scale 12 plain_host default_area "[]"] fill_level_and_colours [of half_scale 13 plain_host default_area "[]"]
    fill_level_and_colours [of many_ticks_half_scale 19999 plain_host default_area "[]"]
    fill_level_and_colours [of many_ticks_half_scale 20000 plain_host default_area "[]"]
    fill_level_and_colours [of inverted_scale 0 plain_host default_area "[]"]
  by (simp add: half_scale_def many_ticks_half_scale_def inverted_scale_def example_defs
      geometry_defs scale_level_def to_u8_def spec_fill_level_def stored_value_inv_def)

subsection \<open>Major and minor ticks\<close>

lemma half_width_val:
  "sint (to_16 (c_div (int_of_s16 sw) 2)) = sint sw sdiv 2"
proof -
  have two: "sint (2 :: 32 word) = 2"
    by simp
  have q: "sint (c_div (int_of_s16 sw) 2) = sint sw sdiv 2"
    using sint_c_div_pos [of 2 "int_of_s16 sw"] by (simp add: sint_int_of_s16)
  have "- 32768 \<le> sint sw sdiv 2 \<and> sint sw sdiv 2 < 32768"
    using sdiv_pos_bounds [of 2 "sint sw"] sint_s16_bounds [of sw]
    by (cases "0 \<le> sint sw") auto
  then show ?thesis
    by (simp add: sint_to_16 q)
qed

lemma tick_thickness:
  assumes "draw_tick host lscale hor level lc d i = Inr (t, d')"
  shows "(if hor then pt_y (line_p2 t) - pt_y (line_p1 t) else pt_x (line_p2 t) - pt_x (line_p1 t))
           = tick_width host (c_mod (int_of_u16 i) (int_of_s16 lc) \<noteq> 0)"
  using draw_tick_fields(3,4) [OF assms]
  by (cases hor) (simp_all add: tick_points_hor tick_points_ver)

lemma label_iff_major:
  assumes "draw_tick host lscale hor level lc d i = Inr (t, d')"
  shows "tick_label t \<noteq> None \<longleftrightarrow> c_mod (int_of_u16 i) (int_of_s16 lc) = 0"
proof (cases "c_mod (int_of_u16 i) (int_of_s16 lc) = 0")
  case True
  with draw_tick_fields(6) [OF assms] show ?thesis
    by auto
next
  case False
  with draw_tick_fields(5) [OF assms] show ?thesis
    by simp
qed

lemma major_ticks_general:
  assumes level: "scale_level (ext_attr lscale) = Inr level"
    and n: "1 < line_cnt (ext_attr lscale)"
    and i: "i < line_cnt (ext_attr lscale)"
    and L: "1 < label_cnt (ext_attr lscale)"
    and step_pos: "uint (label_cnt (ext_attr lscale)) - 1 \<le> uint (line_cnt (ext_attr lscale))"
    and step_fits: "uint (line_cnt (ext_attr lscale)) div (uint (label_cnt (ext_attr lscale)) - 1)
                      < 32768"
  shows "\<exists>ts. lv_linearscale_draw_scale host lscale = Inr ts \<and>
           (tick_label (ts ! unat i) \<noteq> None
              \<longleftrightarrow> spec_major (uint (line_cnt (ext_attr lscale)))
                    (uint (label_cnt (ext_attr lscale))) (uint i)) \<and>
           (if scale_hor lscale
            then pt_y (line_p2 (ts ! unat i)) - pt_y (line_p1 (ts ! unat i))
            else pt_x (line_p2 (ts ! unat i)) - pt_x (line_p1 (ts ! unat i)))
             = (if spec_major (uint (line_cnt (ext_attr lscale)))
                     (uint (label_cnt (ext_attr lscale))) (uint i)
                then style_scale_width host
                else to_16 (c_div (int_of_s16 (style_scale_width host)) 2))"
proof -
  let ?e = "ext_attr lscale"
  let ?step = "uint (line_cnt ?e) div (uint (label_cnt ?e) - 1)"
  have Lpos: "0 < uint (label_cnt ?e) - 1"
    using L by (simp add: word_less_def)
  have lcv: "sint (scale_label_counter ?e) = ?step"
    by (rule scale_label_counter_val [OF L step_fits])
  have "0 < ?step"
    using pos_imp_zdiv_pos_iff [OF Lpos, of "uint (line_cnt ?e)"] step_pos by simp
  then have pos: "0 < sint (scale_label_counter ?e)"
    using lcv by simp
  then have lc: "scale_label_counter ?e \<noteq> 0"
    by auto
  obtain ts where ts: "lv_linearscale_draw_scale host lscale = Inr ts"
    and tick: "\<And>i. i < line_cnt ?e \<Longrightarrow>
           \<exists>d d'. draw_tick host lscale (scale_hor lscale) level
                     (scale_label_counter ?e) d i = Inr (ts ! unat i, d')"
    using draw_scale_ticks [OF level n lc, of host] by blast
  from tick [OF i] obtain d d' where
    t: "draw_tick host lscale (scale_hor lscale) level (scale_label_counter ?e) d i
          = Inr (ts ! unat i, d')"
    by blast
  have m: "c_mod (int_of_u16 i) (int_of_s16 (scale_label_counter ?e)) = 0
             \<longleftrightarrow> spec_major (uint (line_cnt ?e)) (uint (label_cnt ?e)) (uint i)"
    using minor_iff [OF pos, of i] by (simp add: spec_major_def lcv)
  show ?thesis
    using ts label_iff_major [OF t] tick_thickness [OF t] m
    by (auto simp: tick_width_def)
qed

lemma major_26_6:
  assumes "0 \<le> k" and "k < 26"
  shows "spec_major 26 6 k \<longleftrightarrow> k \<in> {0, 5, 10, 15, 20, 25}"
  using assms by (simp add: spec_major_def) presburger

text \<open>
  C6, as stated, fails. With three ticks and six labels \<open>labelCount > 1\<close> holds, the step
  \<open>floor(3 / 5)\<close> is zero and the pass faults instead of drawing tick 0 as a major tick.
  With 40000 ticks and two labels the step 40000 is kept in an \<open>int16_t\<close>, and tick 25536,
  which is no multiple of 40000, gets a label.
\<close>

theorem major_step_zero_or_wrapped:
  "1 < label_cnt (ext_attr few_ticks_scale) \<and>
   lv_linearscale_draw_scale plain_host few_ticks_scale = Inl Minor_modulo_by_zero \<and>
   1 < label_cnt (ext_attr many_ticks_scale) \<and>
   tick_label (drawn_ticks (lv_linearscale_draw_scale plain_host many_ticks_scale) ! 25536)
     \<noteq> None \<and>
   \<not> spec_major (uint (line_cnt (ext_attr many_ticks_scale)))
        (uint (label_cnt (ext_attr many_ticks_scale))) 25536"
proof -
  obtain ts where ts: "lv_linearscale_draw_scale plain_host many_ticks_scale = Inr ts"
    and tick: "\<And>i. i < 40000 \<Longrightarrow>
           \<exists>d d'. draw_tick plain_host many_ticks_scale (scale_hor many_ticks_scale)
                     (word_of_int (- 25536)) (word_of_int (- 25536)) d i = Inr (ts ! unat i, d')"
    using many_ticks_drawn by blast
  from tick [of 25536] obtain d d' where
    t: "draw_tick plain_host many_ticks_scale (scale_hor many_ticks_scale)
          (word_of_int (- 25536)) (word_of_int (- 25536)) d 25536 = Inr (ts ! 25536, d')"
    by auto
  have "c_mod (int_of_u16 25536) (int_of_s16 (word_of_int (- 25536))) = 0"
    by (simp add: c_mod_def int_of_u16_def int_of_s16_def signed_modulo_int_def)
  from draw_tick_fields(6) [OF t this] have "tick_label (ts ! 25536) \<noteq> None"
    by auto
  then have "tick_label (drawn_ticks (lv_linearscale_draw_scale plain_host many_ticks_scale)
                           ! 25536) \<noteq> None"
    by (simp add: ts drawn_ticks_def)
  moreover have "lv_linearscale_draw_scale plain_host few_ticks_scale = Inl Minor_modulo_by_zero"
    by (simp add: few_ticks_scale_def example_defs render_defs)
  ultimately show ?thesis
    by (simp add: many_ticks_fields spec_major_def few_ticks_scale_def example_defs Let_def)
qed

text \<open>
  C6, amended: when \<open>labelCount > 1\<close>, \<open>labelCount - 1 \<le> lineCount\<close> (the step is not zero) and
  the step \<open>floor(lineCount / (labelCount - 1))\<close> is at most 32767, then in a pass whose level
  division faults neither by a zero divisor nor by overflow tick \<open>i\<close> gets a label if and
  only if \<open>i\<close> modulo the step is 0; a major tick has the configured tick thickness, a minor
  tick half of it (the quotient by 2, truncated). With 26 ticks and 6 labels the major ticks
  are exactly 0, 5, 10, 15, 20 and 25.
\<close>

theorem major_ticks_by_step:
  "(scale_level (ext_attr lscale) = Inr level \<and>
    1 < line_cnt (ext_attr lscale) \<and>
    i < line_cnt (ext_attr lscale) \<and>
    1 < label_cnt (ext_attr lscale) \<and>
    uint (label_cnt (ext_attr lscale)) - 1 \<le> uint (line_cnt (ext_attr lscale)) \<and>
    uint (line_cnt (ext_attr lscale)) div (uint (label_cnt (ext_attr lscale)) - 1) < 32768 \<longrightarrow>
      (\<exists>ts. lv_linearscale_draw_scale host lscale = Inr ts \<and>
         (tick_label (ts ! unat i) \<noteq> None
            \<longleftrightarrow> spec_major (uint (line_cnt (ext_attr lscale)))
                  (uint (label_cnt (ext_attr lscale))) (uint i)) \<and>
         (if scale_hor lscale
          then pt_y (line_p2 (ts ! unat i)) - pt_y (line_p1 (ts ! unat i))
          else pt_x (line_p2 (ts ! unat i)) - pt_x (line_p1 (ts ! unat i)))
           = (if spec_major (uint (line_cnt (ext_attr lscale)))
                   (uint (label_cnt (ext_attr lscale))) (uint i)
              then style_scale_width host
              else to_16 (c_div (int_of_s16 (style_scale_width host)) 2)))) \<and>
   sint (to_16 (c_div (int_of_s16 (style_scale_width host)) 2))
     = sint (style_scale_width host) sdiv 2 \<and>
   (scale_level (ext_attr lscale) = Inr level \<and>
    line_cnt (ext_attr lscale) = 26 \<and> label_cnt (ext_attr lscale) = 6 \<and> i < 26 \<longrightarrow>
      (\<exists>ts. lv_linearscale_draw_scale host lscale = Inr ts \<and>
         (tick_label (ts ! unat i) \<noteq> None \<longleftrightarrow> uint i \<in> {0, 5, 10, 15, 20, 25})))"
proof (intro conjI impI)
  assume a: "scale_level (ext_attr lscale) = Inr level \<and>
    1 < line_cnt (ext_attr lscale) \<and>
    i < line_cnt (ext_attr lscale) \<and>
    1 < label_cnt (ext_attr lscale) \<and>
    uint (label_cnt (ext_attr lscale)) - 1 \<le> uint (line_cnt (ext_attr lscale)) \<and>
    uint (line_cnt (ext_attr lscale)) div (uint (label_cnt (ext_attr lscale)) - 1) < 32768"
  show "\<exists>ts. lv_linearscale_draw_scale host lscale = Inr ts \<and>
         (tick_label (ts ! unat i) \<noteq> None
            \<longleftrightarrow> spec_major (uint (line_cnt (ext_attr lscale)))
                  (uint (label_cnt (ext_attr lscale))) (uint i)) \<and>
         (if scale_hor lscale
          then pt_y (line_p2 (ts ! unat i)) - pt_y (line_p1 (ts ! unat i))
          else pt_x (line_p2 (ts ! unat i)) - pt_x (line_p1 (ts ! unat i)))
           = (if spec_major (uint (line_cnt (ext_attr lscale)))
                   (uint (label_cnt (ext_attr lscale))) (uint i)
              then style_scale_width host
              else to_16 (c_div (int_of_s16 (style_scale_width host)) 2))"
    by (rule major_ticks_general [of lscale level i host]) (use a in simp_all)
next
  show "sint (to_16 (c_div (int_of_s16 (style_scale_width host)) 2))
          = sint (style_scale_width host) sdiv 2"
    by (rule half_width_val)
next
  assume a: "scale_level (ext_attr lscale) = Inr level \<and>
    line_cnt (ext_attr lscale) = 26 \<and> label_cnt (ext_attr lscale) = 6 \<and> i < 26"
  have "\<exists>ts. lv_linearscale_draw_scale host lscale = Inr ts \<and>
         (tick_label (ts ! unat i) \<noteq> None
            \<longleftrightarrow> spec_major (uint (line_cnt (ext_attr lscale)))
                  (uint (label_cnt (ext_attr lscale))) (uint i)) \<and>
         (if scale_hor lscale
          then pt_y (line_p2 (ts ! unat i)) - pt_y (line_p1 (ts ! unat i))
          else pt_x (line_p2 (ts ! unat i)) - pt_x (line_p1 (ts ! unat i)))
           = (if spec_major (uint (line_cnt (ext_attr lscale)))
                   (uint (label_cnt (ext_attr lscale))) (uint i)
              then style_scale_width host
              else to_16 (c_div (int_of_s16 (style_scale_width host)) 2))"
    by (rule major_ticks_general [of lscale level i host]) (use a in simp_all)
  then obtain ts where ts: "lv_linearscale_draw_scale host lscale = Inr ts"
    and lbl: "tick_label (ts ! unat i) \<noteq> None \<longleftrightarrow> spec_major 26 6 (uint i)"
    using a by auto
  have "0 \<le> uint i" "uint i < 26"
    using a by (simp_all add: word_less_def)
  then have "spec_major 26 6 (uint i) \<longleftrightarrow> uint i \<in> {0, 5, 10, 15, 20, 25}"
    by (rule major_26_6)
  with ts lbl show "\<exists>ts. lv_linearscale_draw_scale host lscale = Inr ts \<and>
         (tick_label (ts ! unat i) \<noteq> None \<longleftrightarrow> uint i \<in> {0, 5, 10, 15, 20, 25})"
    by blast
qed

text \<open>
  The amended C6 on the default scale at value 50 (level 13), at the major tick 10 and the
  minor tick 11, and at a minor tick of a vertical scale.
\<close>

theorem major_ticks_by_step_witness:
  "scale_level (ext_attr half_scale) = Inr 13 \<and> scale_level (ext_attr tall_scale) = Inr 0 \<and>
   line_cnt (ext_attr half_scale) = 26 \<and> label_cnt (ext_attr half_scale) = 6 \<and>
   spec_major 26 6 10 \<and> \<not> spec_major 26 6 11 \<and> \<not> scale_hor tall_scale \<and>
   (\<exists>ts. lv_linearscale_draw_scale plain_host half_scale = Inr ts \<and>
      tick_label (ts ! 10) \<noteq> None \<and>
      pt_y (line_p2 (ts ! 10)) - pt_y (line_p1 (ts ! 10)) = 10) \<and>
   (\<exists>ts. lv_linearscale_draw_scale plain_host half_scale = Inr ts \<and>
      tick_label (ts ! 11) = None \<and>
      pt_y (line_p2 (ts ! 11)) - pt_y (line_p1 (ts ! 11)) = 5) \<and>
   (\<exists>ts. lv_linearscale_draw_scale plain_host tall_scale = Inr ts \<and>
      tick_label (ts ! 1) = None \<and>
      pt_x (line_p2 (ts ! 1)) - pt_x (line_p1 (ts ! 1)) = 5)"
  using major_ticks_by_step [of half_scale 13 10 plain_host] major_ticks_by_step [of half_scale 13 11 plain_host]
    major_ticks_by_step [of tall_scale 0 1 plain_host]
  by (simp add: half_scale_def tall_scale_def example_defs geometry_defs spec_major_def
      scale_level_def)

subsection \<open>Label values\<close>

lemma label_value_general:
  assumes level: "scale_level (ext_attr lscale) = Inr level"
    and n: "1 < line_cnt (ext_attr lscale)"
    and lc: "scale_label_counter (ext_attr lscale) \<noteq> 0"
    and i: "i < line_cnt (ext_attr lscale)"
    and major: "tick_minor (scale_label_counter (ext_attr lscale)) i = Inr False"
    and span: "- 2147483648 \<le> sint (max_value (ext_attr lscale)) - sint (min_value (ext_attr lscale))"
              "sint (max_value (ext_attr lscale)) - sint (min_value (ext_attr lscale)) < 2147483648"
    and no_ov: "- 2147483648
                  \<le> (sint (max_value (ext_attr lscale)) - sint (min_value (ext_attr lscale))) * uint i"
               "(sint (max_value (ext_attr lscale)) - sint (min_value (ext_attr lscale))) * uint i
                  < 2147483648"
  shows "\<exists>ts l. lv_linearscale_draw_scale host lscale = Inr ts \<and>
           tick_label (ts ! unat i) = Some l \<and>
           sint (label_val l)
             = ((sint (max_value (ext_attr lscale)) - sint (min_value (ext_attr lscale))) * uint i)
                 sdiv (uint (line_cnt (ext_attr lscale)) - 1)
               + sint (min_value (ext_attr lscale)) \<and>
           label_txt l = tick_scale_txt host (ext_attr lscale) (label_val l)"
proof -
  let ?e = "ext_attr lscale"
  obtain ts where ts: "lv_linearscale_draw_scale host lscale = Inr ts"
    and tick: "\<And>i. i < line_cnt ?e \<Longrightarrow>
           \<exists>d d'. draw_tick host lscale (scale_hor lscale) level
                     (scale_label_counter ?e) d i = Inr (ts ! unat i, d')"
    using draw_scale_ticks [OF level n lc, of host] by blast
  from tick [OF i] obtain d d' where
    t: "draw_tick host lscale (scale_hor lscale) level (scale_label_counter ?e) d i
          = Inr (ts ! unat i, d')"
    by blast
  have "c_mod (int_of_u16 i) (int_of_s16 (scale_label_counter ?e)) = 0"
    using major by (simp add: tick_minor_def split: if_splits)
  from draw_tick_fields(6) [OF t this] obtain l where
    l: "tick_label (ts ! unat i) = Some l" "label_val l = tick_scale_act ?e i"
       "label_txt l = tick_scale_txt host ?e (label_val l)"
    by blast
  show ?thesis
    using ts l tick_scale_act_val [OF n span no_ov i] by auto
qed

text \<open>
  C7, as stated, fails. With the range 0 to 10, four ticks and three labels the major ticks
  0 and 2 carry the values 0 and 6, while \<open>round(10 * 2 / 3) + 0 = 7\<close>.
\<close>

theorem label_value_not_rounded:
  "length (drawn_ticks (lv_linearscale_draw_scale plain_host ten_range_scale)) = 4 \<and>
   drawn_label_value (drawn_ticks (lv_linearscale_draw_scale plain_host ten_range_scale) ! 2)
     = Some 6 \<and>
   spec_label_value (sint (min_value (ext_attr ten_range_scale)))
     (sint (max_value (ext_attr ten_range_scale))) 2
     (uint (line_cnt (ext_attr ten_range_scale))) = 7"
  by (simp add: drawn_ticks_def drawn_label_value_def ten_range_scale_def example_defs render_defs
      spec_label_value_def spec_round_div_def round_def)

text \<open>
  C7, amended: for every major tick \<open>i\<close> of a pass that does not fault, with \<open>lineCount > 1\<close>
  and \<open>maxValue - minValue\<close> and \<open>(maxValue - minValue) * i\<close> within the 32-bit \<open>int\<close>, the
  label value is \<open>(maxValue - minValue) * i / (lineCount - 1) + minValue\<close> with the quotient
  truncated towards zero (\<open>sdiv\<close>), not rounded to nearest, for ranges that are inverted as
  well; the label text is the formatter's text of that value, or the default conversion's.
  The value does not depend on the stored current value. With the range 0 to 100, 26 ticks
  and 6 labels the label of tick 0 is 0 and the label of tick 25 is 100.
\<close>

theorem label_value_truncated:
  "(scale_level (ext_attr lscale) = Inr level \<and>
    1 < line_cnt (ext_attr lscale) \<and>
    scale_label_counter (ext_attr lscale) \<noteq> 0 \<and>
    i < line_cnt (ext_attr lscale) \<and>
    tick_minor (scale_label_counter (ext_attr lscale)) i = Inr False \<and>
    - 2147483648 \<le> sint (max_value (ext_attr lscale)) - sint (min_value (ext_attr lscale)) \<and>
    sint (max_value (ext_attr lscale)) - sint (min_value (ext_attr lscale)) < 2147483648 \<and>
    - 2147483648
      \<le> (sint (max_value (ext_attr lscale)) - sint (min_value (ext_attr lscale))) * uint i \<and>
    (sint (max_value (ext_attr lscale)) - sint (min_value (ext_attr lscale))) * uint i
      < 2147483648 \<longrightarrow>
      (\<exists>ts l. lv_linearscale_draw_scale host lscale = Inr ts \<and>
         tick_label (ts ! unat i) = Some l \<and>
         sint (label_val l)
           = ((sint (max_value (ext_attr lscale)) - sint (min_value (ext_attr lscale))) * uint i)
               sdiv (uint (line_cnt (ext_attr lscale)) - 1)
             + sint (min_value (ext_attr lscale)) \<and>
         label_txt l = tick_scale_txt host (ext_attr lscale) (label_val l))) \<and>
   tick_scale_act ((ext_attr lscale)\<lparr>cur_value := v\<rparr>) i = tick_scale_act (ext_attr lscale) i \<and>
   (min_value (ext_attr lscale) = 0 \<and> max_value (ext_attr lscale) = 100 \<and>
    line_cnt (ext_attr lscale) = 26 \<and> label_cnt (ext_attr lscale) = 6 \<longrightarrow>
      (\<exists>ts l0 l25. lv_linearscale_draw_scale host lscale = Inr ts \<and>
         tick_label (ts ! 0) = Some l0 \<and> label_val l0 = 0 \<and>
         tick_label (ts ! 25) = Some l25 \<and> label_val l25 = 100))"
proof (intro conjI impI)
  assume a: "scale_level (ext_attr lscale) = Inr level \<and>
    1 < line_cnt (ext_attr lscale) \<and>
    scale_label_counter (ext_attr lscale) \<noteq> 0 \<and>
    i < line_cnt (ext_attr lscale) \<and>
    tick_minor (scale_label_counter (ext_attr lscale)) i = Inr False \<and>
    - 2147483648 \<le> sint (max_value (ext_attr lscale)) - sint (min_value (ext_attr lscale)) \<and>
    sint (max_value (ext_attr lscale)) - sint (min_value (ext_attr lscale)) < 2147483648 \<and>
    - 2147483648
      \<le> (sint (max_value (ext_attr lscale)) - sint (min_value (ext_attr lscale))) * uint i \<and>
    (sint (max_value (ext_attr lscale)) - sint (min_value (ext_attr lscale))) * uint i
      < 2147483648"
  show "\<exists>ts l. lv_linearscale_draw_scale host lscale = Inr ts \<and>
         tick_label (ts ! unat i) = Some l \<and>
         sint (label_val l)
           = ((sint (max_value (ext_attr lscale)) - sint (min_value (ext_attr lscale))) * uint i)
               sdiv (uint (line_cnt (ext_attr lscale)) - 1)
             + sint (min_value (ext_attr lscale)) \<and>
         label_txt l = tick_scale_txt host (ext_attr lscale) (label_val l)"
    by (rule label_value_general [of lscale level i host]) (use a in simp_all)
next
  show "tick_scale_act ((ext_attr lscale)\<lparr>cur_value := v\<rparr>) i = tick_scale_act (ext_attr lscale) i"
    by (simp add: tick_scale_act_def)
next
  assume a: "min_value (ext_attr lscale) = 0 \<and> max_value (ext_attr lscale) = 100 \<and>
    line_cnt (ext_attr lscale) = 26 \<and> label_cnt (ext_attr lscale) = 6"
  let ?e = "ext_attr lscale"
  have "\<exists>lv. scale_level ?e = Inr lv"
    using a by (simp add: scale_level_Inr_iff)
  then obtain lv where lv: "scale_level ?e = Inr lv"
    by blast
  have lcv: "scale_label_counter ?e = 5"
    using a by (simp add: scale_label_counter_def to_16_def int_of_u16_def c_div_def
        signed_divide_int_def)
  have m0: "tick_minor (scale_label_counter ?e) 0 = Inr False"
    by (simp add: lcv tick_minor_def int_of_s16_def int_of_u16_def c_mod_def)
  have m25: "tick_minor (scale_label_counter ?e) 25 = Inr False"
    by (simp add: lcv tick_minor_def int_of_s16_def int_of_u16_def c_mod_def
        signed_modulo_int_def)
  have "\<exists>ts l. lv_linearscale_draw_scale host lscale = Inr ts \<and>
         tick_label (ts ! unat (0 :: uint16_t)) = Some l \<and>
         sint (label_val l)
           = ((sint (max_value ?e) - sint (min_value ?e)) * uint (0 :: uint16_t))
               sdiv (uint (line_cnt ?e) - 1) + sint (min_value ?e) \<and>
         label_txt l = tick_scale_txt host ?e (label_val l)"
    by (rule label_value_general [of lscale lv 0 host]) (use a lv m0 in \<open>simp_all add: lcv\<close>)
  then obtain ts l0 where ts: "lv_linearscale_draw_scale host lscale = Inr ts"
    and l0: "tick_label (ts ! 0) = Some l0" "sint (label_val l0) = 0"
    using a by auto
  have "\<exists>ts l. lv_linearscale_draw_scale host lscale = Inr ts \<and>
         tick_label (ts ! unat (25 :: uint16_t)) = Some l \<and>
         sint (label_val l)
           = ((sint (max_value ?e) - sint (min_value ?e)) * uint (25 :: uint16_t))
               sdiv (uint (line_cnt ?e) - 1) + sint (min_value ?e) \<and>
         label_txt l = tick_scale_txt host ?e (label_val l)"
    by (rule label_value_general [of lscale lv 25 host]) (use a lv m25 in \<open>simp_all add: lcv\<close>)
  then obtain l25 where l25: "tick_label (ts ! 25) = Some l25" "sint (label_val l25) = 100"
    using a ts by (auto simp: signed_divide_int_def)
  from l0(2) have "sint (label_val l0) = sint (0 :: int32_t)"
    by simp
  then have v0: "label_val l0 = 0"
    by (rule signed_word_eqI)
  from l25(2) have "sint (label_val l25) = sint (100 :: int32_t)"
    by simp
  then have v25: "label_val l25 = 100"
    by (rule signed_word_eqI)
  show "\<exists>ts l0 l25. lv_linearscale_draw_scale host lscale = Inr ts \<and>
         tick_label (ts ! 0) = Some l0 \<and> label_val l0 = 0 \<and>
         tick_label (ts ! 25) = Some l25 \<and> label_val l25 = 100"
    using ts l0(1) l25(1) v0 v25 by blast
qed

text \<open>
  The amended C7 at tick 2 of the four-tick scale over 0 to 10 (\<open>20 / 3 = 6\<close>), at tick 2 of
  the four-tick scale over the inverted range 10 to 5 (\<open>-10 / 3 = -3\<close>, the label reads 7),
  and on the default scale.
\<close>

theorem label_value_truncated_witness:
  "line_cnt (ext_attr ten_range_scale) = 4 \<and> scale_label_counter (ext_attr ten_range_scale) = 2 \<and>
   scale_level (ext_attr ten_range_scale) = Inr 0 \<and>
   tick_minor (scale_label_counter (ext_attr ten_range_scale)) 2 = Inr False \<and>
   min_value (ext_attr ten_range_scale) = 0 \<and> max_value (ext_attr ten_range_scale) = 10 \<and>
   (\<exists>ts l. lv_linearscale_draw_scale plain_host ten_range_scale = Inr ts \<and>
      tick_label (ts ! 2) = Some l \<and> sint (label_val l) = 6 \<and> label_txt l = ''n'') \<and>
   line_cnt (ext_attr inverted_four_tick_scale) = 4 \<and>
   scale_level (ext_attr inverted_four_tick_scale) = Inr 0 \<and>
   min_value (ext_attr inverted_four_tick_scale) = 10 \<and>
   max_value (ext_attr inverted_four_tick_scale) = 5 \<and>
   (\<exists>ts l. lv_linearscale_draw_scale plain_host inverted_four_tick_scale = Inr ts \<and>
      tick_label (ts ! 2) = Some l \<and> sint (label_val l) = 7 \<and> label_txt l = ''n'') \<and>
   (\<exists>ts l0 l25. lv_linearscale_draw_scale plain_host half_scale = Inr ts \<and>
      tick_label (ts ! 0) = Some l0 \<and> label_val l0 = 0 \<and>
      tick_label (ts ! 25) = Some l25 \<and> label_val l25 = 100)"
  using label_value_truncated [of ten_range_scale 0 2 plain_host 0] label_value_truncated [of inverted_four_tick_scale 0 2 plain_host 0]
    label_value_truncated [of half_scale 13 0 plain_host 0]
  by (simp add: ten_range_scale_def inverted_four_tick_scale_def inverted_scale_def half_scale_def
      example_defs geometry_defs tick_minor_def c_mod_def signed_modulo_int_def
      tick_scale_txt_def scale_level_def)

subsection \<open>The gradient\<close>

lemma uint_u8_bounds: "0 \<le> uint (w :: 8 word)" "uint (w :: 8 word) \<le> 255"
  using uint_lt2p [of w] by simp_all

lemma mix_numerator:
  fixes A B m :: int
  shows "A * (255 - m) + B * m = 255 * A + (B - A) * m"
  by (simp add: algebra_simps)

lemma mix_numerator_bounds:
  fixes A B m :: int
  assumes "0 \<le> A" "A \<le> 255" "0 \<le> B" "B \<le> 255" "0 \<le> m" "m \<le> 255"
  shows "0 \<le> A * (255 - m) + B * m" and "A * (255 - m) + B * m \<le> 255 * 255"
proof -
  show "0 \<le> A * (255 - m) + B * m"
    using assms by simp
  have "A * (255 - m) \<le> 255 * (255 - m)"
    using assms by (intro mult_right_mono) simp_all
  moreover have "B * m \<le> 255 * m"
    using assms by (intro mult_right_mono) simp_all
  ultimately show "A * (255 - m) + B * m \<le> 255 * 255"
    by simp
qed

lemma uint_mix_channel:
  "uint (mix_channel a b m) = (uint a * (255 - uint m) + uint b * uint m) div 255"
proof -
  let ?N = "uint a * (255 - uint m) + uint b * uint m"
  have N: "0 \<le> ?N" "?N \<le> 255 * 255"
    using mix_numerator_bounds [of "uint a" "uint b" "uint m"] uint_u8_bounds by simp_all
  then have "0 \<le> ?N div 255"
    by (simp add: pos_imp_zdiv_nonneg_iff)
  moreover have "?N div 255 \<le> (255 * 255) div 255"
    using N(2) by (intro zdiv_mono1) simp_all
  then have "?N div 255 < 256"
    by simp
  ultimately have "take_bit 8 (?N div 255) = ?N div 255"
    by (simp add: take_bit_int_eq_self)
  then show ?thesis
    by (simp add: mix_channel_def uint_word_of_int_eq)
qed

lemma mix_channel_0: "mix_channel a b 0 = a"
  by (rule word_uint_eqI) (simp add: uint_mix_channel)

lemma mix_channel_255: "mix_channel a b 255 = b"
  by (rule word_uint_eqI) (simp add: uint_mix_channel)

lemma mix_channel_approaches:
  assumes "uint m1 \<le> uint m2"
  shows "channel_dist (mix_channel a b m2) b \<le> channel_dist (mix_channel a b m1) b"
proof -
  let ?A = "uint a" and ?B = "uint b" and ?p = "uint m1" and ?q = "uint m2"
  let ?N = "\<lambda>m. 255 * ?A + (?B - ?A) * m"
  have v: "uint (mix_channel a b m) = ?N (uint m) div 255" for m
    by (simp add: uint_mix_channel mix_numerator)
  have q: "?q \<le> 255" and p: "0 \<le> ?p"
    using uint_u8_bounds by simp_all
  show ?thesis
  proof (cases "?A \<le> ?B")
    case True
    then have d: "0 \<le> ?B - ?A"
      by simp
    have "(?B - ?A) * ?p \<le> (?B - ?A) * ?q"
      using assms d by (rule mult_left_mono)
    then have "?N ?p div 255 \<le> ?N ?q div 255"
      by (intro zdiv_mono1) simp_all
    moreover have "(?B - ?A) * ?q \<le> (?B - ?A) * 255"
      using q d by (rule mult_left_mono)
    then have "?N ?q \<le> 255 * ?B"
      by (simp add: algebra_simps)
    then have "?N ?q div 255 \<le> (255 * ?B) div 255"
      by (intro zdiv_mono1) simp_all
    then have "?N ?q div 255 \<le> ?B"
      by simp
    ultimately show ?thesis
      by (simp add: channel_dist_def v)
  next
    case False
    then have d: "?B - ?A \<le> 0"
      by simp
    have "(?B - ?A) * ?q \<le> (?B - ?A) * ?p"
      using assms d by (rule mult_left_mono_neg)
    then have "?N ?q div 255 \<le> ?N ?p div 255"
      by (intro zdiv_mono1) simp_all
    moreover have "(?B - ?A) * 255 \<le> (?B - ?A) * ?q"
      using q d by (rule mult_left_mono_neg)
    then have "255 * ?B \<le> ?N ?q"
      by (simp add: algebra_simps)
    then have "(255 * ?B) div 255 \<le> ?N ?q div 255"
      by (intro zdiv_mono1) simp_all
    then have "?B \<le> ?N ?q div 255"
      by simp
    ultimately show ?thesis
      by (simp add: channel_dist_def v)
  qed
qed

lemma lv_color_mix_0: "lv_color_mix c1 c2 0 = c1"
  by (simp add: lv_color_mix_def mix_channel_0)

lemma lv_color_mix_255: "lv_color_mix c1 c2 255 = c2"
  by (simp add: lv_color_mix_def mix_channel_255)

lemma lv_color_mix_approaches:
  "uint m1 \<le> uint m2 \<Longrightarrow>
     color_dist (lv_color_mix c1 c2 m2) c2 \<le> color_dist (lv_color_mix c1 c2 m1) c2"
  by (simp add: color_dist_def lv_color_mix_def add_mono mix_channel_approaches)

lemma mix_fraction_mono:
  assumes "i \<le> j" and "j < line_cnt e"
  shows "uint (to_u8 (c_div (255 * int_of_u16 i) (int_of_u16 (line_cnt e))))
           \<le> uint (to_u8 (c_div (255 * int_of_u16 j) (int_of_u16 (line_cnt e))))"
proof -
  have i: "i < line_cnt e"
    using assms by simp
  have "uint i \<le> uint j"
    using assms(1) by (simp add: word_le_def)
  moreover have "0 \<le> uint j"
    by simp
  then have "0 < uint (line_cnt e)"
    using uint_less_of_word_less [OF assms(2)] by linarith
  ultimately have "(255 * uint i) div uint (line_cnt e) \<le> (255 * uint j) div uint (line_cnt e)"
    by (intro zdiv_mono1) simp_all
  then show ?thesis
    by (simp add: mix_fraction_val [OF i] mix_fraction_val [OF assms(2)])
qed

lemma mix_fraction_0: "to_u8 (c_div (255 * int_of_u16 0) n) = 0"
  by (simp add: to_u8_def c_div_def int_of_u16_def)

lemma gradient_general:
  assumes ne: "max_value (ext_attr lscale) \<noteq> min_value (ext_attr lscale)"
    and n: "1 < line_cnt (ext_attr lscale)"
    and lc: "scale_label_counter (ext_attr lscale) \<noteq> 0"
    and level: "scale_level (ext_attr lscale) = Inr level"
    and ij: "i \<le> j"
    and j: "j < line_cnt (ext_attr lscale)"
    and below: "uint j < sint level"
  shows "\<exists>ts. lv_linearscale_draw_scale host lscale = Inr ts \<and>
           color (line_dsc (ts ! unat i))
             = lv_color_mix (style_scale_grad_color host) (style_line_color host)
                 (to_u8 (c_div (255 * int_of_u16 i) (int_of_u16 (line_cnt (ext_attr lscale))))) \<and>
           uint (to_u8 (c_div (255 * int_of_u16 i) (int_of_u16 (line_cnt (ext_attr lscale)))))
             = (255 * uint i) div uint (line_cnt (ext_attr lscale)) \<and>
           color_dist (color (line_dsc (ts ! unat j))) (style_line_color host)
             \<le> color_dist (color (line_dsc (ts ! unat i))) (style_line_color host) \<and>
           (i = 0 \<longrightarrow> color (line_dsc (ts ! unat i)) = style_scale_grad_color host)"
proof -
  let ?e = "ext_attr lscale"
  let ?m = "\<lambda>k. to_u8 (c_div (255 * int_of_u16 k) (int_of_u16 (line_cnt ?e)))"
  have i: "i < line_cnt ?e"
    using ij j by simp
  have below_i: "uint i < sint level"
    using ij below by (simp add: word_le_def)
  obtain ts where ts: "lv_linearscale_draw_scale host lscale = Inr ts"
    and tick: "\<And>i. i < line_cnt ?e \<Longrightarrow>
           \<exists>d d'. draw_tick host lscale (scale_hor lscale) level
                     (scale_label_counter ?e) d i = Inr (ts ! unat i, d')"
    using draw_scale_ticks [OF level n lc, of host] by blast
  from tick [OF i] obtain d d' where
    ti: "draw_tick host lscale (scale_hor lscale) level (scale_label_counter ?e) d i
           = Inr (ts ! unat i, d')"
    by blast
  from tick [OF j] obtain e e' where
    tj: "draw_tick host lscale (scale_hor lscale) level (scale_label_counter ?e) e j
           = Inr (ts ! unat j, e')"
    by blast
  have ci: "color (line_dsc (ts ! unat i))
              = lv_color_mix (style_scale_grad_color host) (style_line_color host) (?m i)"
    by (rule tick_colour_cases(2) [OF ti below_i])
  have cj: "color (line_dsc (ts ! unat j))
              = lv_color_mix (style_scale_grad_color host) (style_line_color host) (?m j)"
    by (rule tick_colour_cases(2) [OF tj below])
  have "uint (?m i) \<le> uint (?m j)"
    by (rule mix_fraction_mono [OF ij j])
  then have "color_dist (color (line_dsc (ts ! unat j))) (style_line_color host)
               \<le> color_dist (color (line_dsc (ts ! unat i))) (style_line_color host)"
    unfolding ci cj by (rule lv_color_mix_approaches)
  moreover have "color (line_dsc (ts ! unat i)) = style_scale_grad_color host" if "i = 0"
    using ci that by (simp add: mix_fraction_0 lv_color_mix_0)
  ultimately show ?thesis
    using ts ci mix_fraction_val [OF i] by blast
qed

text \<open>
  C8, on the modelled \<open>lv_color_mix\<close>: a tick \<open>i\<close> below the fill level has the colour
  \<open>lv_color_mix(gradColor, mainColor, (255 * i) / lineCount)\<close>; at index 0 this is the pure
  gradient colour, and for two ticks below the level the one with the larger index is at
  least as close to the main colour. The mix fraction 0 gives the first colour, 255 the
  second: which end of the blend the fraction 0 selects is taken from the spec's words, since
  the function itself is not among the sources at hand.
\<close>

theorem gradient_blend_towards_main:
  "(max_value (ext_attr lscale) \<noteq> min_value (ext_attr lscale) \<and>
    1 < line_cnt (ext_attr lscale) \<and>
    scale_label_counter (ext_attr lscale) \<noteq> 0 \<and>
    scale_level (ext_attr lscale) = Inr level \<and>
    i \<le> j \<and> j < line_cnt (ext_attr lscale) \<and> uint j < sint level \<longrightarrow>
      (\<exists>ts. lv_linearscale_draw_scale host lscale = Inr ts \<and>
         color (line_dsc (ts ! unat i))
           = lv_color_mix (style_scale_grad_color host) (style_line_color host)
               (to_u8 (c_div (255 * int_of_u16 i) (int_of_u16 (line_cnt (ext_attr lscale))))) \<and>
         uint (to_u8 (c_div (255 * int_of_u16 i) (int_of_u16 (line_cnt (ext_attr lscale)))))
           = (255 * uint i) div uint (line_cnt (ext_attr lscale)) \<and>
         color_dist (color (line_dsc (ts ! unat j))) (style_line_color host)
           \<le> color_dist (color (line_dsc (ts ! unat i))) (style_line_color host) \<and>
         (i = 0 \<longrightarrow> color (line_dsc (ts ! unat i)) = style_scale_grad_color host))) \<and>
   lv_color_mix c1 c2 0 = c1 \<and> lv_color_mix c1 c2 255 = c2"
proof (intro conjI impI)
  assume a: "max_value (ext_attr lscale) \<noteq> min_value (ext_attr lscale) \<and>
    1 < line_cnt (ext_attr lscale) \<and>
    scale_label_counter (ext_attr lscale) \<noteq> 0 \<and>
    scale_level (ext_attr lscale) = Inr level \<and>
    i \<le> j \<and> j < line_cnt (ext_attr lscale) \<and> uint j < sint level"
  show "\<exists>ts. lv_linearscale_draw_scale host lscale = Inr ts \<and>
         color (line_dsc (ts ! unat i))
           = lv_color_mix (style_scale_grad_color host) (style_line_color host)
               (to_u8 (c_div (255 * int_of_u16 i) (int_of_u16 (line_cnt (ext_attr lscale))))) \<and>
         uint (to_u8 (c_div (255 * int_of_u16 i) (int_of_u16 (line_cnt (ext_attr lscale)))))
           = (255 * uint i) div uint (line_cnt (ext_attr lscale)) \<and>
         color_dist (color (line_dsc (ts ! unat j))) (style_line_color host)
           \<le> color_dist (color (line_dsc (ts ! unat i))) (style_line_color host) \<and>
         (i = 0 \<longrightarrow> color (line_dsc (ts ! unat i)) = style_scale_grad_color host)"
    by (rule gradient_general [of lscale level i j host]) (use a in simp_all)
next
  show "lv_color_mix c1 c2 0 = c1"
    by (rule lv_color_mix_0)
next
  show "lv_color_mix c1 c2 255 = c2"
    by (rule lv_color_mix_255)
qed

text \<open>C8 on the default scale at value 50, at the ticks 0 and 12.\<close>

theorem gradient_blend_towards_main_witness:
  "scale_level (ext_attr half_scale) = Inr 13 \<and>
   (\<exists>ts. lv_linearscale_draw_scale plain_host half_scale = Inr ts \<and>
      color (line_dsc (ts ! 0)) = \<lparr>ch_red = 0, ch_green = 0, ch_blue = 255\<rparr> \<and>
      color_dist (color (line_dsc (ts ! 12))) (style_line_color plain_host)
        \<le> color_dist (color (line_dsc (ts ! 0))) (style_line_color plain_host)) \<and>
   (\<exists>ts. lv_linearscale_draw_scale plain_host half_scale = Inr ts \<and>
      color (line_dsc (ts ! 12)) = \<lparr>ch_red = 117, ch_green = 0, ch_blue = 138\<rparr>) \<and>
   color_dist \<lparr>ch_red = 117, ch_green = 0, ch_blue = 138\<rparr> (style_line_color plain_host) = 276 \<and>
   color_dist \<lparr>ch_red = 0, ch_green = 0, ch_blue = 255\<rparr> (style_line_color plain_host) = 510"
  using gradient_blend_towards_main [of half_scale 13 0 12 plain_host] gradient_blend_towards_main [of half_scale 13 12 12 plain_host]
  by (simp add: half_scale_def example_defs geometry_defs scale_level_def to_u8_def
      lv_color_mix_def mix_channel_def color_dist_def channel_dist_def) blast

end
